theory Spec2Isabelle
  imports Complex_Main "HOL-Library.Word"
begin

section \<open>JSON values as the relay handles them\<close>

text \<open>
  The relay (\<^verbatim>\<open>server.js\<close>, \<^verbatim>\<open>gemini-connection.js\<close>, \<^verbatim>\<open>functions.js\<close>) works on the
  results of \<^verbatim>\<open>JSON.parse\<close> and on object literals. A value is one of JavaScript's
  JSON-shaped values; \<open>JUndefined\<close> is the value of a missing property. A number
  is kept as the string JavaScript prints for it (\<^verbatim>\<open>"0"\<close> for both zeros, an exponent
  form from \<^verbatim>\<open>1e21\<close> on), which is all the code below looks at: its truthiness and its
  printed form. An object is its list of own properties.
\<close>

datatype json =
    JUndefined
  | JNull
  | JBool bool
  | JNum string
  | JStr string
  | JArr "json list"
  | JObj "(string \<times> json) list"

datatype error =
    TypeError
  | Error string
  | SendFailed
  | NotSupportedError

text \<open>Truthiness, as \<^verbatim>\<open>if (v)\<close>, \<^verbatim>\<open>!v\<close> and \<^verbatim>\<open>a || b\<close> test it.\<close>

fun truthy :: "json \<Rightarrow> bool" where
  "truthy JUndefined = False"
| "truthy JNull = False"
| "truthy (JBool b) = b"
| "truthy (JNum printed) = (printed \<noteq> ''0'')"
| "truthy (JStr s) = (s \<noteq> [])"
| "truthy (JArr xs) = True"
| "truthy (JObj kvs) = True"

text \<open>
  A property read \<^verbatim>\<open>v.k\<close>: a TypeError on \<^verbatim>\<open>null\<close> and \<^verbatim>\<open>undefined\<close>, the own property
  of an object, and \<^verbatim>\<open>undefined\<close> otherwise (none of the property names read by the
  relay is a property of \<^verbatim>\<open>Object.prototype\<close> or a built-in property of a string, number,
  boolean or array).
\<close>

fun get_prop :: "json \<Rightarrow> string \<Rightarrow> error + json" where
  "get_prop JUndefined k = Inl TypeError"
| "get_prop JNull k = Inl TypeError"
| "get_prop (JObj kvs) k = Inr (case map_of kvs k of None \<Rightarrow> JUndefined | Some v \<Rightarrow> v)"
| "get_prop v k = Inr JUndefined"

text \<open>Optional chaining \<^verbatim>\<open>v?.k\<close> never throws.\<close>

definition opt_prop :: "json \<Rightarrow> string \<Rightarrow> json" where
  "opt_prop v k = (case get_prop v k of Inl e \<Rightarrow> JUndefined | Inr x \<Rightarrow> x)"

text \<open>\<^verbatim>\<open>a || b\<close> on values.\<close>

definition or_else :: "json \<Rightarrow> json \<Rightarrow> json" where
  "or_else a b = (if truthy a then a else b)"

text \<open>\<^verbatim>\<open>Array.isArray\<close> and \<^verbatim>\<open>typeof v === "object"\<close>.\<close>

fun isArray :: "json \<Rightarrow> bool" where
  "isArray (JArr xs) = True"
| "isArray v = False"

fun typeof_object :: "json \<Rightarrow> bool" where
  "typeof_object JNull = True"
| "typeof_object (JArr xs) = True"
| "typeof_object (JObj kvs) = True"
| "typeof_object v = False"

text \<open>
  The string a value becomes as a property key or inside a template literal
  (\<^verbatim>\<open>toolHandlers[name]\<close>, \<^verbatim>\<open>`Tool not implemented: ${name}`\<close>), or the TypeError that
  the conversion throws. An array is the join of its elements, with nothing for
  \<^verbatim>\<open>null\<close>. An object is converted by the first of its \<^verbatim>\<open>toString\<close> and \<^verbatim>\<open>valueOf\<close>
  that is callable and returns a primitive: the inherited \<^verbatim>\<open>toString\<close> gives
  \<^verbatim>\<open>[object Object]\<close>, but an own property \<^verbatim>\<open>toString\<close> of a parsed object is never
  callable and hides it, the inherited \<^verbatim>\<open>valueOf\<close> returns the object itself, and the
  conversion throws.
\<close>

fun join_comma :: "string list \<Rightarrow> string" where
  "join_comma [] = []"
| "join_comma [s] = s"
| "join_comma (s # t # ss) = s @ '','' @ join_comma (t # ss)"

fun first_error :: "(error + 'a) list \<Rightarrow> error + 'a list" where
  "first_error [] = Inr []"
| "first_error (Inl e # rs) = Inl e"
| "first_error (Inr x # rs) =
     (case first_error rs of Inl e \<Rightarrow> Inl e | Inr xs \<Rightarrow> Inr (x # xs))"

fun toString :: "json \<Rightarrow> error + string" where
  "toString JUndefined = Inr ''undefined''"
| "toString JNull = Inr ''null''"
| "toString (JBool b) = Inr (if b then ''true'' else ''false'')"
| "toString (JNum printed) = Inr printed"
| "toString (JStr s) = Inr s"
| "toString (JArr xs) =
     (case first_error
             (map (\<lambda>x. if x = JNull \<or> x = JUndefined then Inr [] else toString x) xs) of
        Inl e \<Rightarrow> Inl e
      | Inr ss \<Rightarrow> Inr (join_comma ss))"
| "toString (JObj kvs) =
     (if map_of kvs ''toString'' = None then Inr ''[object Object]'' else Inl TypeError)"

text \<open>
  \<^verbatim>\<open>String.prototype.trim\<close>, on the white space a byte string can hold
  (tab, line feed, vertical tab, form feed, carriage return, space, no-break space).
\<close>

definition is_space :: "char \<Rightarrow> bool" where
  "is_space c \<longleftrightarrow> of_char c \<in> {9, 10, 11, 12, 13, 32, 160 :: nat}"

definition trim :: "string \<Rightarrow> string" where
  "trim s = rev (dropWhile is_space (rev (dropWhile is_space s)))"


section \<open>The upstream session: \<^verbatim>\<open>GeminiConnection\<close>\<close>

text \<open>
  One relay session is a record of everything the code of a session reads and writes:
  the fields of its \<^verbatim>\<open>GeminiConnection\<close> (\<open>ws\<close> is \<open>None\<close> for \<^verbatim>\<open>null\<close> and otherwise
  the socket's \<^verbatim>\<open>readyState\<close>), the \<^verbatim>\<open>readyState\<close> of the client socket, the
  \<^verbatim>\<open>configReceived\<close> flag of the connection handler, whether the handler is suspended in
  \<^verbatim>\<open>await geminiConn.connect()\<close>, and the calls made on the two sockets so far.

  \<open>up_fail\<close> and \<open>cl_fail\<close> are the environment: the outcomes the callbacks of the
  next \<^verbatim>\<open>ws.send\<close> calls will report on the upstream and on the client socket
  (\<open>True\<close> is an error; past the end of the list every send succeeds).
  \<open>UpstreamSend obj\<close> and \<open>ClientSend obj\<close> are the calls
  \<^verbatim>\<open>ws.send(JSON.stringify(obj), callback)\<close> on the upstream and on the client socket
  (the serialisation leaves out a property whose value is \<^verbatim>\<open>undefined\<close>), and
  \<open>ClientClose\<close> is \<^verbatim>\<open>clientWs.close(code, reason)\<close>. Logging is not modelled.
\<close>

datatype ready_state = CONNECTING | OPEN | CLOSING | CLOSED

datatype event =
    UpstreamSend json
  | ClientSend json
  | ClientClose nat string

record session =
  ws :: "ready_state option"
  config :: "json option"
  connected :: bool
  client_ready :: ready_state
  configReceived :: bool
  connecting :: bool
  receiving :: bool
  up_fail :: "bool list"
  cl_fail :: "bool list"
  trace :: "event list"

definition isOpen :: "session \<Rightarrow> bool" where
  "isOpen w \<longleftrightarrow> connected w \<and> ws w = Some OPEN"

text \<open>
  \<^verbatim>\<open>_sendJson(obj)\<close>: throws when the session is not open; otherwise hands the
  serialised object to \<^verbatim>\<open>ws.send\<close> and resolves or rejects as its callback says.
\<close>

definition sendJson :: "json \<Rightarrow> session \<Rightarrow> (error + unit) \<times> session" where
  "sendJson obj w =
     (if \<not> isOpen w
      then (Inl (Error ''[GeminiConnection] WebSocket not open or not connected yet.''), w)
      else (case up_fail w of
              [] \<Rightarrow> (Inr (), w\<lparr>trace := trace w @ [UpstreamSend obj]\<rparr>)
            | failed # rest \<Rightarrow>
                (if failed then Inl SendFailed else Inr (),
                 w\<lparr>up_fail := rest, trace := trace w @ [UpstreamSend obj]\<rparr>)))"

text \<open>
  \<^verbatim>\<open>sendJsonSafe(ws, obj)\<close> on the client socket: sends when the socket is open
  (rejecting if the callback reports an error), and otherwise only warns.
\<close>

definition sendJsonSafe :: "json \<Rightarrow> session \<Rightarrow> (error + unit) \<times> session" where
  "sendJsonSafe obj w =
     (if client_ready w = OPEN
      then (case cl_fail w of
              [] \<Rightarrow> (Inr (), w\<lparr>trace := trace w @ [ClientSend obj]\<rparr>)
            | failed # rest \<Rightarrow>
                (if failed then Inl SendFailed else Inr (),
                 w\<lparr>cl_fail := rest, trace := trace w @ [ClientSend obj]\<rparr>))
      else (Inr (), w))"

definition user_turn :: "json list \<Rightarrow> bool \<Rightarrow> json" where
  "user_turn parts finished =
     JObj [(''client_content'',
            JObj [(''turns'', JArr [JObj [(''role'', JStr ''user''), (''parts'', JArr parts)]]),
                  (''turn_complete'', JBool finished)])]"

definition sendImage :: "json \<Rightarrow> session \<Rightarrow> (error + unit) \<times> session" where
  "sendImage imageData =
     sendJson (user_turn
       [JObj [(''text'', JStr ''Describeme la imagen'')],
        JObj [(''inline_data'',
               JObj [(''mime_type'', JStr ''image/jpeg''), (''data'', imageData)])]]
       True)"

definition sendText :: "json \<Rightarrow> session \<Rightarrow> (error + unit) \<times> session" where
  "sendText text = sendJson (user_turn [JObj [(''text'', text)]] True)"

definition sendContinue :: "json \<Rightarrow> session \<Rightarrow> (error + unit) \<times> session" where
  "sendContinue clientContent =
     sendJson (if truthy clientContent then clientContent else user_turn [] False)"

definition sendEnd :: "json \<Rightarrow> session \<Rightarrow> (error + unit) \<times> session" where
  "sendEnd clientContent =
     sendJson (if truthy clientContent then clientContent else user_turn [] True)"


section \<open>Tool handlers: \<^verbatim>\<open>functions.js\<close>\<close>

definition tool_response :: "json \<Rightarrow> json \<Rightarrow> (string \<times> json) list \<Rightarrow> json" where
  "tool_response cid name extra =
     JObj [(''tool_response'',
            JObj [(''function_responses'',
                   JArr [JObj [(''id'', cid), (''name'', name),
                               (''response'',
                                JObj ([(''rendered'', JBool True),
                                       (''state'', JStr ''continue conversation'')] @ extra))]])])]"

definition tool_ack :: "json \<Rightarrow> json \<Rightarrow> json" where
  "tool_ack cid name = tool_response cid name []"

definition tool_text_event :: "json \<Rightarrow> json" where
  "tool_text_event text = JObj [(''type'', JStr ''tool_text''), (''data'', text)]"

definition end_call_event :: "json \<Rightarrow> json" where
  "end_call_event reason = JObj [(''type'', JStr ''end_call''), (''data'', reason)]"

text \<open>
  \<^verbatim>\<open>handleWriteText(fc, clientWs, geminiConn, clientId)\<close>. The destructuring of \<open>fc\<close>
  throws on \<^verbatim>\<open>null\<close>, and so does, between the acknowledgment and the event, the
  template literal of the log line when \<^verbatim>\<open>textToWrite\<close> has no string form; the
  handler catches (and logs) whatever is thrown inside it. In \<^verbatim>\<open>handleEndCall\<close> the
  template literal comes after both sends, where a throw changes nothing.
\<close>

definition handleWriteText :: "json \<Rightarrow> session \<Rightarrow> session" where
  "handleWriteText fc w =
     (case (get_prop fc ''id'', get_prop fc ''name'', get_prop fc ''args'') of
        (Inr cid, Inr name, Inr args) \<Rightarrow>
          (case sendJson (tool_ack cid name) w of
             (Inl e, w1) \<Rightarrow> w1
           | (Inr u, w1) \<Rightarrow>
               (let textToWrite = or_else (opt_prop args ''text'') (JStr []) in
                case toString textToWrite of
                  Inl e \<Rightarrow> w1
                | Inr printed \<Rightarrow> snd (sendJsonSafe (tool_text_event textToWrite) w1)))
      | _ \<Rightarrow> w)"

definition handleEndCall :: "json \<Rightarrow> session \<Rightarrow> session" where
  "handleEndCall fc w =
     (case (get_prop fc ''id'', get_prop fc ''name'', get_prop fc ''args'') of
        (Inr cid, Inr name, Inr args) \<Rightarrow>
          (case sendJson (tool_ack cid name) w of
             (Inl e, w1) \<Rightarrow> w1
           | (Inr u, w1) \<Rightarrow>
               snd (sendJsonSafe
                      (end_call_event
                         (or_else (opt_prop args ''reason'') (JStr ''Call ended by AI''))) w1))
      | _ \<Rightarrow> w)"

text \<open>
  \<^verbatim>\<open>toolHandlers\<close> is an object literal with the two own properties \<^verbatim>\<open>write_text\<close> and
  \<^verbatim>\<open>end_call\<close>, and the read \<^verbatim>\<open>toolHandlers[name]\<close> goes through its prototype chain:
  for a name of a property of \<^verbatim>\<open>Object.prototype\<close> it yields that inherited value, a
  function or (for \<^verbatim>\<open>__proto__\<close>) an object, all of them truthy. Called as
  \<^verbatim>\<open>toolHandler(fc, clientWs, geminiConn, clientId)\<close> an inherited value either
  returns (\<^verbatim>\<open>constructor\<close>, \<^verbatim>\<open>toString\<close>) or throws a TypeError that
  \<^verbatim>\<open>handleToolCall\<close> catches; in neither case does it touch a socket.
\<close>

datatype handler = WriteText | EndCall | Inherited

definition object_prototype_keys :: "string list" where
  "object_prototype_keys =
     [''constructor'', ''__proto__'', ''hasOwnProperty'', ''isPrototypeOf'',
      ''propertyIsEnumerable'', ''toLocaleString'', ''toString'', ''valueOf'',
      ''__defineGetter__'', ''__defineSetter__'', ''__lookupGetter__'', ''__lookupSetter__'']"

definition toolHandlers :: "string \<Rightarrow> handler option" where
  "toolHandlers k =
     (if k = ''write_text'' then Some WriteText
      else if k = ''end_call'' then Some EndCall
      else if k \<in> set object_prototype_keys then Some Inherited
      else None)"

fun call_handler :: "handler \<Rightarrow> json \<Rightarrow> session \<Rightarrow> session" where
  "call_handler WriteText fc w = handleWriteText fc w"
| "call_handler EndCall fc w = handleEndCall fc w"
| "call_handler Inherited fc w = w"


section \<open>The receive loop of the relay: \<^verbatim>\<open>server.js\<close>\<close>

text \<open>
  \<^verbatim>\<open>handleToolCall\<close>. The name is converted to a string by the template literal of the
  first log line, by the read \<^verbatim>\<open>toolHandlers[name]\<close> and by the message of the response;
  \<open>printed\<close> is that string. Where the conversion throws, the \<^verbatim>\<open>catch\<close> logs and
  nothing is sent.
\<close>

definition tool_not_implemented :: "json \<Rightarrow> json \<Rightarrow> string \<Rightarrow> json" where
  "tool_not_implemented cid name printed =
     tool_response cid name
       [(''error'', JObj [(''message'', JStr (''Tool not implemented: '' @ printed))])]"

definition handleToolCall :: "json \<Rightarrow> session \<Rightarrow> session" where
  "handleToolCall fc w =
     (case (get_prop fc ''id'', get_prop fc ''name'') of
        (Inr cid, Inr name) \<Rightarrow>
          (case toString name of
             Inl e \<Rightarrow> w
           | Inr printed \<Rightarrow>
               (case toolHandlers printed of
                  None \<Rightarrow> snd (sendJson (tool_not_implemented cid name printed) w)
                | Some toolHandler \<Rightarrow> call_handler toolHandler fc w))
      | _ \<Rightarrow> w)"

fun handleToolCalls :: "json list \<Rightarrow> session \<Rightarrow> session" where
  "handleToolCalls [] w = w"
| "handleToolCalls (fc # fcs) w = handleToolCalls fcs (handleToolCall fc w)"

fun items :: "json \<Rightarrow> json list" where
  "items (JArr xs) = xs"
| "items v = []"

text \<open>
  Step 1 of an iteration, on the parsed frame \<open>response\<close>. The read
  \<^verbatim>\<open>response.toolCall\<close> is outside the inner \<^verbatim>\<open>try\<close>: on \<^verbatim>\<open>null\<close> it throws to the
  outer one, which ends the loop.
\<close>

definition dispatchToolCalls :: "json \<Rightarrow> session \<Rightarrow> (error + unit) \<times> session" where
  "dispatchToolCalls response w =
     (case get_prop response ''toolCall'' of
        Inl e \<Rightarrow> (Inl e, w)
      | Inr toolCall \<Rightarrow>
          if truthy toolCall \<and> isArray (opt_prop toolCall ''functionCalls'')
          then (Inr (), handleToolCalls (items (opt_prop toolCall ''functionCalls'')) w)
          else (Inr (), w))"

definition interrupted_event :: json where
  "interrupted_event =
     JObj [(''type'', JStr ''serverContent''),
           (''serverContent'',
            JObj [(''interrupted'', JBool True), (''turnComplete'', JBool True)])]"

definition turn_complete_event :: json where
  "turn_complete_event = JObj [(''type'', JStr ''turn_complete''), (''data'', JBool True)]"

definition turn_open_event :: json where
  "turn_open_event =
     JObj [(''type'', JStr ''serverContent''),
           (''serverContent'', JObj [(''turnComplete'', JBool False)])]"

definition text_event :: "string \<Rightarrow> bool \<Rightarrow> json" where
  "text_event s finished =
     JObj [(''type'', JStr ''text''), (''data'', JStr s), (''turnComplete'', JBool finished)]"

text \<open>
  The loop over \<^verbatim>\<open>serverContent.modelTurn.parts\<close>. \<^verbatim>\<open>p.text\<close> throws on a \<^verbatim>\<open>null\<close>
  part, and \<^verbatim>\<open>p.text.trim()\<close> on a truthy text that is not a string.
\<close>

fun forwardParts :: "json \<Rightarrow> json list \<Rightarrow> session \<Rightarrow> (error + unit) \<times> session" where
  "forwardParts serverContent [] w = (Inr (), w)"
| "forwardParts serverContent (p # ps) w =
     (if client_ready w \<noteq> OPEN then (Inr (), w)
      else (case get_prop p ''text'' of
              Inl e \<Rightarrow> (Inl e, w)
            | Inr t \<Rightarrow>
                if truthy t
                then (case t of
                        JStr s \<Rightarrow>
                          (case sendJsonSafe
                                  (text_event (trim s)
                                     (truthy (opt_prop serverContent ''turnComplete''))) w of
                             (Inl e, w1) \<Rightarrow> (Inl e, w1)
                           | (Inr u, w1) \<Rightarrow> forwardParts serverContent ps w1)
                      | _ \<Rightarrow> (Inl TypeError, w))
                else forwardParts serverContent ps w))"

definition forwardModelTurn :: "json \<Rightarrow> json \<Rightarrow> session \<Rightarrow> (error + unit) \<times> session" where
  "forwardModelTurn response serverContent w =
     (let modelTurn = opt_prop serverContent ''modelTurn'' in
      if \<not> truthy modelTurn then (Inr (), w)
      else (case (if \<not> truthy (opt_prop response ''turnComplete'')
                  then sendJsonSafe turn_open_event w else (Inr (), w)) of
              (Inl e, w1) \<Rightarrow> (Inl e, w1)
            | (Inr u, w1) \<Rightarrow>
                (let parts = opt_prop modelTurn ''parts'' in
                 if isArray parts then forwardParts serverContent (items parts) w1
                 else (Inr (), w1))))"

text \<open>
  Step 2, the body of the inner \<^verbatim>\<open>try\<close>, whose \<^verbatim>\<open>catch\<close> logs and goes on to the
  next iteration. \<^verbatim>\<open>sendEnd()\<close> is called without an argument.
\<close>

definition interruption :: "session \<Rightarrow> session" where
  "interruption w =
     (case sendJsonSafe interrupted_event w of
        (Inl e, w1) \<Rightarrow> w1
      | (Inr u, w1) \<Rightarrow>
          (case sendEnd JUndefined w1 of
             (Inl e, w2) \<Rightarrow> w2
           | (Inr u, w2) \<Rightarrow> snd (sendJsonSafe turn_complete_event w2)))"

definition forward :: "json \<Rightarrow> session \<Rightarrow> session" where
  "forward response w =
     (let serverContent = opt_prop response ''serverContent'' in
      if truthy (opt_prop response ''interrupted'')
         \<or> truthy (opt_prop serverContent ''interrupted'')
      then interruption w
      else (case forwardModelTurn response serverContent w of
              (Inl e, w1) \<Rightarrow> w1
            | (Inr u, w1) \<Rightarrow>
                if truthy (opt_prop response ''turnComplete'')
                   \<or> truthy (opt_prop serverContent ''turnComplete'')
                then snd (sendJsonSafe turn_complete_event w1)
                else w1))"

text \<open>
  One iteration of \<^verbatim>\<open>receiveFromGemini\<close> on a parsed frame: \<open>False\<close> when the
  iteration ends the loop (an exception reached the outer \<^verbatim>\<open>try\<close>), \<open>True\<close> when
  the loop goes on to the next \<^verbatim>\<open>receive()\<close>.
\<close>

definition processFrame :: "json \<Rightarrow> session \<Rightarrow> bool \<times> session" where
  "processFrame response w =
     (case dispatchToolCalls response w of
        (Inl e, w1) \<Rightarrow> (False, w1)
      | (Inr u, w1) \<Rightarrow> (True, forward response w1))"


section \<open>The connection handler of the relay: \<^verbatim>\<open>server.js\<close>\<close>

text \<open>
  The handler of a client message is an \<^verbatim>\<open>async\<close> function that suspends in
  \<^verbatim>\<open>await geminiConn.connect()\<close>; while it is suspended the event loop delivers the
  events of the upstream socket to the listeners that \<^verbatim>\<open>connect()\<close> registered, and
  further client messages to new runs of the handler. The session is therefore a state
  machine over these events; \<open>connecting\<close> holds while the promise of \<^verbatim>\<open>connect()\<close>
  is pending.
\<close>

text \<open>
  \<^verbatim>\<open>clientWs.close(code, reason)\<close>; an open socket goes to \<^verbatim>\<open>CLOSING\<close>.
\<close>

definition close_client :: "nat \<Rightarrow> string \<Rightarrow> session \<Rightarrow> session" where
  "close_client code reason w =
     w\<lparr>client_ready := (if client_ready w = OPEN then CLOSING else client_ready w),
       trace := trace w @ [ClientClose code reason]\<rparr>"

definition first_message_error :: string where
  "first_message_error =
     ''[ClientMessage] First message must be '' @ [CHR 0x27] @ ''config'' @ [CHR 0x27]
       @ ''. Closing connection.''"

definition gemini_ready_event :: json where
  "gemini_ready_event = JObj [(''type'', JStr ''gemini_ready''), (''data'', JBool True)]"

definition setupMessage :: "json \<Rightarrow> json" where
  "setupMessage cfg =
     (let tools = opt_prop cfg ''tools'' in
      JObj [(''setup'',
             JObj ([(''model'', JStr ''models/gemini-2.0-flash-exp''),
                    (''generation_config'',
                     JObj [(''response_modalities'', JArr [JStr ''TEXT''])]),
                    (''system_instruction'',
                     JObj [(''parts'',
                            JArr [JObj [(''text'',
                                         or_else (opt_prop cfg ''systemPrompt'') (JStr []))]])])]
                   @ (if truthy tools \<and> isArray tools then [(''tools'', tools)] else [])))])"

text \<open>
  The two ways the handler resumes after \<^verbatim>\<open>await geminiConn.connect()\<close>: its
  \<^verbatim>\<open>catch\<close> block when the promise is rejected, and the rest of the \<^verbatim>\<open>try\<close> block
  (\<^verbatim>\<open>gemini_ready\<close> to the client, then the receive loop is started) when it is
  resolved. A promise settles once: both do nothing unless it is pending.
\<close>

definition connect_rejected :: "session \<Rightarrow> session" where
  "connect_rejected w =
     (if connecting w
      then close_client 1011 ''Failed to connect Gemini'' (w\<lparr>connecting := False\<rparr>)
      else w)"

definition connect_resolved :: "session \<Rightarrow> session" where
  "connect_resolved w =
     (if connecting w
      then (case sendJsonSafe gemini_ready_event (w\<lparr>connecting := False\<rparr>) of
              (Inl e, w1) \<Rightarrow> close_client 1011 ''Failed to connect Gemini'' w1
            | (Inr u, w1) \<Rightarrow> w1\<lparr>receiving := True\<rparr>)
      else w)"

text \<open>
  \<^verbatim>\<open>connect()\<close> up to the point where it returns its promise: it throws without a
  configuration, and otherwise creates the socket and registers its listeners.
\<close>

definition connect :: "session \<Rightarrow> session" where
  "connect w =
     (case config w of
        None \<Rightarrow> connect_rejected (w\<lparr>connecting := True\<rparr>)
      | Some cfg \<Rightarrow>
          if \<not> truthy cfg then connect_rejected (w\<lparr>connecting := True\<rparr>)
          else w\<lparr>ws := Some CONNECTING, connecting := True\<rparr>)"

text \<open>The \<^verbatim>\<open>switch\<close> on the type of a message that comes after the configuration.\<close>

definition forwardClientFrame :: "json \<Rightarrow> json \<Rightarrow> session \<Rightarrow> session" where
  "forwardClientFrame mtype data w =
     (if mtype = JStr ''image'' then (if \<not> isOpen w then w else snd (sendImage data w))
      else if mtype = JStr ''text'' then (if \<not> isOpen w then w else snd (sendText data w))
      else if mtype = JStr ''continue''
        then (if \<not> isOpen w then w else snd (sendContinue (opt_prop data ''data'') w))
      else if mtype = JStr ''end''
        then (if \<not> isOpen w then w else snd (sendEnd (opt_prop data ''data'') w))
      else w)"

text \<open>
  The \<^verbatim>\<open>message\<close> handler of the client socket. Its argument is the result of
  \<^verbatim>\<open>JSON.parse(rawData.toString())\<close>, \<open>None\<close> when that throws. The outer \<^verbatim>\<open>catch\<close>
  logs whatever is thrown (by the parse, or by the destructuring of \<^verbatim>\<open>null\<close>) and the
  handler returns.
\<close>

definition onClientMessage :: "json option \<Rightarrow> session \<Rightarrow> session" where
  "onClientMessage raw w =
     (case raw of
        None \<Rightarrow> w
      | Some message \<Rightarrow>
          (case (get_prop message ''type'', get_prop message ''config'',
                 get_prop message ''data'') of
             (Inr mtype, Inr cfg, Inr data) \<Rightarrow>
               if \<not> configReceived w
               then (if mtype \<noteq> JStr ''config''
                     then close_client 1011 first_message_error w
                     else (let w1 = w\<lparr>configReceived := True\<rparr> in
                           if \<not> truthy cfg \<or> \<not> typeof_object cfg
                           then close_client 1011 ''Failed to connect Gemini'' w1
                           else connect (w1\<lparr>config := Some cfg\<rparr>)))
               else forwardClientFrame mtype data w
           | _ \<Rightarrow> w))"

text \<open>
  The listeners of \<^verbatim>\<open>connect()\<close> on the upstream socket. \<^verbatim>\<open>open\<close> (the socket is
  then \<^verbatim>\<open>OPEN\<close>) sets \<open>connected\<close> and sends the setup message, rejecting if building
  or sending it fails; the first \<^verbatim>\<open>message\<close> resolves the promise; \<^verbatim>\<open>error\<close> rejects
  it; \<^verbatim>\<open>close\<close> clears \<open>connected\<close>. Later messages belong to \<^verbatim>\<open>receive()\<close> and
  are not followed here. An event that the socket cannot emit in its state is ignored.
\<close>

definition onUpstreamOpen :: "session \<Rightarrow> session" where
  "onUpstreamOpen w =
     (if ws w \<noteq> Some CONNECTING then w
      else (let w1 = w\<lparr>ws := Some OPEN, connected := True\<rparr> in
            case config w1 of
              None \<Rightarrow> connect_rejected w1
            | Some cfg \<Rightarrow>
                (case up_fail w1 of
                   [] \<Rightarrow> w1\<lparr>trace := trace w1 @ [UpstreamSend (setupMessage cfg)]\<rparr>
                 | failed # rest \<Rightarrow>
                     (let w2 = w1\<lparr>up_fail := rest,
                                   trace := trace w1 @ [UpstreamSend (setupMessage cfg)]\<rparr>
                      in if failed then connect_rejected w2 else w2))))"

datatype socket_event =
    ClientMessage "json option"
  | UpstreamOpen
  | UpstreamMessage
  | UpstreamError
  | UpstreamClose

fun step :: "socket_event \<Rightarrow> session \<Rightarrow> session" where
  "step (ClientMessage raw) w = onClientMessage raw w"
| "step UpstreamOpen w = onUpstreamOpen w"
| "step UpstreamMessage w = (if ws w = Some OPEN then connect_resolved w else w)"
| "step UpstreamError w = (if ws w = None then w else connect_rejected w)"
| "step UpstreamClose w =
     (if ws w = None then w else w\<lparr>ws := Some CLOSED, connected := False\<rparr>)"

fun run :: "socket_event list \<Rightarrow> session \<Rightarrow> session" where
  "run [] w = w"
| "run (e # es) w = run es (step e w)"

text \<open>The session of a client that has just connected.\<close>

definition new_session :: "bool list \<Rightarrow> bool list \<Rightarrow> session" where
  "new_session up cl =
     \<lparr>ws = None, config = None, connected = False, client_ready = OPEN,
      configReceived = False, connecting = False, receiving = False,
      up_fail = up, cl_fail = cl, trace = []\<rparr>"

text \<open>The upstream sends among a list of socket calls.\<close>

fun is_upstream_send :: "event \<Rightarrow> bool" where
  "is_upstream_send (UpstreamSend obj) = True"
| "is_upstream_send e = False"


section \<open>\<^verbatim>\<open>GeminiConnection.receive\<close>\<close>

text \<open>
  \<^verbatim>\<open>receive()\<close> throws when the session is not open, and otherwise returns a promise
  and registers three \<^verbatim>\<open>once\<close> listeners on the socket: \<^verbatim>\<open>message\<close> resolves it with
  the frame's text, \<^verbatim>\<open>error\<close> rejects it, \<^verbatim>\<open>close\<close> resolves it with \<^verbatim>\<open>null\<close>. A
  \<^verbatim>\<open>once\<close> listener runs for the first event of its kind and is then removed; a
  promise that has settled ignores every later \<^verbatim>\<open>resolve\<close> and \<^verbatim>\<open>reject\<close>.
\<close>

datatype 'a promise = Pending | Resolved 'a | Rejected error

datatype ws_event = Message string | Failure error | Closure nat string

record receiver =
  on_message :: bool
  on_error :: bool
  on_close :: bool
  outcome :: "string option promise"

definition receive :: "session \<Rightarrow> receiver" where
  "receive w =
     (if \<not> isOpen w
      then \<lparr>on_message = False, on_error = False, on_close = False,
            outcome = Rejected (Error ''[GeminiConnection] WebSocket is not open. Cannot receive.'')\<rparr>
      else \<lparr>on_message = True, on_error = True, on_close = True, outcome = Pending\<rparr>)"

definition settle :: "string option promise \<Rightarrow> receiver \<Rightarrow> receiver" where
  "settle p r = (if outcome r = Pending then r\<lparr>outcome := p\<rparr> else r)"

fun emit :: "ws_event \<Rightarrow> receiver \<Rightarrow> receiver" where
  "emit (Message d) r =
     (if on_message r then settle (Resolved (Some d)) (r\<lparr>on_message := False\<rparr>) else r)"
| "emit (Failure err) r =
     (if on_error r then settle (Rejected err) (r\<lparr>on_error := False\<rparr>) else r)"
| "emit (Closure code reason) r =
     (if on_close r then settle (Resolved None) (r\<lparr>on_close := False\<rparr>) else r)"

fun emit_all :: "ws_event list \<Rightarrow> receiver \<Rightarrow> receiver" where
  "emit_all [] r = r"
| "emit_all (e # es) r = emit_all es (emit e r)"


section \<open>The playback buffer: \<^verbatim>\<open>AudioStreamer\<close>\<close>

text \<open>
  The fields of the class, followed by the part of the browser it acts on: whether the
  \<^verbatim>\<open>AudioContext\<close> is suspended, the sample rates for which its \<^verbatim>\<open>createBuffer\<close>
  makes a buffer, the pending timeouts (handle, closure, delay in milliseconds), the
  next fresh handle of a timeout or source node, and the effects so far. \<open>gain\<close> is
  the value of \<^verbatim>\<open>gainNode.gain\<close> and \<open>gainConnected\<close> whether the node is connected to
  the destination.

  A time (\<^verbatim>\<open>context.currentTime\<close>, in seconds) is the real number that the double
  stands for, and a method reads the clock once. The only arithmetic on times is the
  subtraction \<^verbatim>\<open>now - this.lastPlaybackTime\<close> of the stall check, which JavaScript rounds
  to a double: the model takes this subtraction of doubles as the parameter \<open>fsub\<close>
  and does not replace it by the subtraction of reals.

  A callback is the empty function the class installs, or a function of the hosting
  code, of which only the invocation is recorded. \<open>SourceStart\<close> records the segment a
  started source plays and the level at which it reaches the destination at that
  moment.
\<close>

datatype callback = Noop | Hook nat

datatype timer = StallCheck | NextBuffer

record audio_buffer =
  samples :: "real list"
  rate :: nat

datatype effect =
    ContextResume
  | SourceStart nat audio_buffer real
  | SourceStop nat
  | SourceDisconnect nat
  | Invoked nat

record streamer =
  sampleRate :: nat
  audioQueue :: "audio_buffer list"
  isPlaying :: bool
  currentSource :: "nat option"
  gain :: real
  gainConnected :: bool
  playbackTimeout :: "nat option"
  lastPlaybackTime :: real
  isDisposed :: bool
  onComplete :: callback
  onInterruption :: callback
  suspended :: bool
  supportsRate :: "nat \<Rightarrow> bool"
  timers :: "(nat \<times> timer \<times> nat) list"
  fresh :: nat
  effects :: "effect list"

definition new_streamer :: "nat \<Rightarrow> bool \<Rightarrow> (nat \<Rightarrow> bool) \<Rightarrow> streamer" where
  "new_streamer ttsSampleRate ctx_suspended ctx_supports =
     \<lparr>sampleRate = ttsSampleRate, audioQueue = [], isPlaying = False, currentSource = None,
      gain = 1, gainConnected = True, playbackTimeout = None, lastPlaybackTime = 0,
      isDisposed = False, onComplete = Noop, onInterruption = Noop,
      suspended = ctx_suspended, supportsRate = ctx_supports, timers = [], fresh = 1,
      effects = []\<rparr>"

definition invoke :: "callback \<Rightarrow> streamer \<Rightarrow> streamer" where
  "invoke cb s = (case cb of Noop \<Rightarrow> s | Hook h \<Rightarrow> s\<lparr>effects := effects s @ [Invoked h]\<rparr>)"

definition level :: "streamer \<Rightarrow> real" where
  "level s = (if gainConnected s then gain s else 0)"

text \<open>\<^verbatim>\<open>setTimeout\<close> returns the handle \<open>fresh s\<close>.\<close>

definition setTimeout :: "timer \<Rightarrow> nat \<Rightarrow> streamer \<Rightarrow> streamer" where
  "setTimeout closure delay s =
     s\<lparr>timers := timers s @ [(fresh s, closure, delay)], fresh := Suc (fresh s)\<rparr>"

definition clearTimeout :: "nat \<Rightarrow> streamer \<Rightarrow> streamer" where
  "clearTimeout h s = s\<lparr>timers := filter (\<lambda>t. fst t \<noteq> h) (timers s)\<rparr>"

definition checkPlaybackStatus :: "streamer \<Rightarrow> streamer" where
  "checkPlaybackStatus s =
     (let s1 = (case playbackTimeout s of None \<Rightarrow> s | Some h \<Rightarrow> clearTimeout h s) in
      if isDisposed s1 then s1
      else (setTimeout StallCheck 1000 s1)\<lparr>playbackTimeout := Some (fresh s1)\<rparr>)"

definition playNextBuffer :: "real \<Rightarrow> streamer \<Rightarrow> streamer" where
  "playNextBuffer now s =
     (if isDisposed s \<or> audioQueue s = []
      then invoke (onComplete s) (s\<lparr>isPlaying := False\<rparr>)
      else (let audioBuffer = hd (audioQueue s);
                source = fresh s;
                s1 = s\<lparr>lastPlaybackTime := now, audioQueue := tl (audioQueue s),
                       fresh := Suc source\<rparr>;
                s2 = (case currentSource s1 of
                        None \<Rightarrow> s1
                      | Some old \<Rightarrow> s1\<lparr>effects := effects s1 @ [SourceDisconnect old]\<rparr>)
            in s2\<lparr>currentSource := Some source,
                  effects := effects s2 @ [SourceStart source audioBuffer (level s2)]\<rparr>))"

text \<open>The \<^verbatim>\<open>onended\<close> closure of a source.\<close>

definition sourceEnded :: "real \<Rightarrow> streamer \<Rightarrow> streamer" where
  "sourceEnded now s =
     (if isDisposed s then s
      else (let s1 = s\<lparr>lastPlaybackTime := now\<rparr> in
            if audioQueue s1 \<noteq> [] then setTimeout NextBuffer 0 s1
            else invoke (onComplete s1) (s1\<lparr>isPlaying := False\<rparr>)))"

text \<open>The closure that \<^verbatim>\<open>checkPlaybackStatus\<close> hands to \<^verbatim>\<open>setTimeout\<close>.\<close>

definition stalled :: "(real \<Rightarrow> real \<Rightarrow> real) \<Rightarrow> real \<Rightarrow> streamer \<Rightarrow> bool" where
  "stalled fsub now s \<longleftrightarrow>
     fsub now (lastPlaybackTime s) > 1 \<and> audioQueue s \<noteq> [] \<and> isPlaying s"

definition stallTick :: "(real \<Rightarrow> real \<Rightarrow> real) \<Rightarrow> real \<Rightarrow> streamer \<Rightarrow> streamer" where
  "stallTick fsub now s =
     (let s1 = (if stalled fsub now s then playNextBuffer now s else s) in
      if isPlaying s1 \<and> \<not> isDisposed s1 then checkPlaybackStatus s1 else s1)"

text \<open>The timeout with handle \<open>h\<close> fires, if it is still pending.\<close>

definition fire :: "(real \<Rightarrow> real \<Rightarrow> real) \<Rightarrow> nat \<Rightarrow> real \<Rightarrow> streamer \<Rightarrow> streamer" where
  "fire fsub h now s =
     (case find (\<lambda>t. fst t = h) (timers s) of
        None \<Rightarrow> s
      | Some (h', closure, delay) \<Rightarrow>
          (case closure of
             StallCheck \<Rightarrow> stallTick fsub now (clearTimeout h s)
           | NextBuffer \<Rightarrow> playNextBuffer now (clearTimeout h s)))"

definition stop :: "streamer \<Rightarrow> streamer" where
  "stop s =
     (let s1 = s\<lparr>isPlaying := False\<rparr>;
          s2 = (case playbackTimeout s1 of
                  None \<Rightarrow> s1
                | Some h \<Rightarrow> (clearTimeout h s1)\<lparr>playbackTimeout := None\<rparr>);
          s3 = s2\<lparr>audioQueue := []\<rparr>;
          s4 = (case currentSource s3 of
                  None \<Rightarrow> s3
                | Some src \<Rightarrow>
                    s3\<lparr>effects := effects s3 @ [SourceStop src, SourceDisconnect src]\<rparr>);
          s5 = s4\<lparr>currentSource := None, gain := 0\<rparr>
      in invoke (onInterruption s5) s5)"

definition resume :: "streamer \<Rightarrow> streamer" where
  "resume s =
     (if isDisposed s then s
      else (let s1 = (if suspended s then s\<lparr>effects := effects s @ [ContextResume]\<rparr> else s)
            in s1\<lparr>gainConnected := True, gain := 1\<rparr>))"

definition dispose :: "streamer \<Rightarrow> streamer" where
  "dispose s =
     (if isDisposed s then s
      else (let s1 = stop (s\<lparr>isDisposed := True\<rparr>);
                s2 = s1\<lparr>onComplete := Noop, onInterruption := Noop, audioQueue := []\<rparr>;
                s3 = (case currentSource s2 of
                        None \<Rightarrow> s2
                      | Some src \<Rightarrow>
                          s2\<lparr>effects := effects s2 @ [SourceStop src, SourceDisconnect src],
                             currentSource := None\<rparr>);
                s4 = s3\<lparr>gainConnected := False\<rparr>
            in (case playbackTimeout s4 of
                  None \<Rightarrow> s4
                | Some h \<Rightarrow> (clearTimeout h s4)\<lparr>playbackTimeout := None\<rparr>)))"

text \<open>
  \<^verbatim>\<open>addPCM16(chunk)\<close>; \<open>None\<close> is a missing chunk. The samples of an
  \<^verbatim>\<open>Int16Array\<close> are signed 16-bit integers, and a sample divided by 32768 is exact
  as a double and as a 32-bit float. \<^verbatim>\<open>createBuffer\<close> throws a \<^verbatim>\<open>NotSupportedError\<close>
  for a length of zero and for a sample rate the context does not support, which
  leaves \<^verbatim>\<open>addPCM16\<close> after the gain has been set and before the queue is touched.
\<close>

definition toFloat32 :: "16 word list \<Rightarrow> real list" where
  "toFloat32 chunk = map (\<lambda>x. real_of_int (sint x) / 32768) chunk"

definition addPCM16 :: "16 word list option \<Rightarrow> real \<Rightarrow> streamer \<Rightarrow> (error + unit) \<times> streamer" where
  "addPCM16 chunk now s =
     (case chunk of
        None \<Rightarrow> (Inr (), s)
      | Some c \<Rightarrow>
          if isDisposed s then (Inr (), s)
          else (let s1 = (if suspended s then s\<lparr>effects := effects s @ [ContextResume]\<rparr>
                          else s);
                    s2 = s1\<lparr>gain := 1\<rparr>
                in if c = [] \<or> \<not> supportsRate s2 (sampleRate s2)
                   then (Inl NotSupportedError, s2)
                   else (let audioBuffer = \<lparr>samples = toFloat32 c, rate = sampleRate s2\<rparr>;
                             s3 = s2\<lparr>audioQueue := audioQueue s2 @ [audioBuffer]\<rparr>;
                             s4 = (if \<not> isPlaying s3
                                   then playNextBuffer now
                                          (s3\<lparr>isPlaying := True, lastPlaybackTime := now\<rparr>)
                                   else s3)
                         in (Inr (), checkPlaybackStatus s4))))"

text \<open>A call of one of the public methods, and a sequence of such calls.\<close>

datatype method_call =
    AddPCM16 "16 word list option" real
  | StopPlayback
  | Resume
  | Dispose

fun call :: "method_call \<Rightarrow> streamer \<Rightarrow> streamer" where
  "call (AddPCM16 chunk now) s = snd (addPCM16 chunk now s)"
| "call StopPlayback s = stop s"
| "call Resume s = resume s"
| "call Dispose s = dispose s"

fun calls :: "method_call list \<Rightarrow> streamer \<Rightarrow> streamer" where
  "calls [] s = s"
| "calls (c # cs) s = calls cs (call c s)"


section \<open>Example inputs\<close>

text \<open>
  A configuration message, a text message and a tool call, and the session of a client
  whose configuration went through: the upstream socket opened and answered the setup.
\<close>

definition config_frame :: json where
  "config_frame =
     JObj [(''type'', JStr ''config''),
           (''config'', JObj [(''systemPrompt'', JStr ''x''), (''tools'', JArr [])])]"

definition text_frame :: json where
  "text_frame = JObj [(''type'', JStr ''text''), (''data'', JStr ''hola'')]"

definition write_text_call :: json where
  "write_text_call =
     JObj [(''id'', JStr ''1''), (''name'', JStr ''write_text''),
           (''args'', JObj [(''text'', JStr ''ABC'')])]"

definition live_session :: session where
  "live_session =
     run [ClientMessage (Some config_frame), UpstreamOpen, UpstreamMessage] (new_session [] [])"

definition inherited_call :: json where
  "inherited_call =
     JObj [(''id'', JStr ''1''), (''name'', JStr ''constructor''), (''args'', JObj [])]"

definition inherited_call_frame :: json where
  "inherited_call_frame =
     JObj [(''toolCall'', JObj [(''functionCalls'', JArr [inherited_call])])]"

definition interrupted_frame :: json where
  "interrupted_frame =
     JObj [(''serverContent'',
            JObj [(''interrupted'', JBool True),
                  (''modelTurn'', JObj [(''parts'', JArr [JObj [(''text'', JStr ''hi'')]])])]),
           (''turnComplete'', JBool True)]"

definition interrupted_tool_frame :: json where
  "interrupted_tool_frame =
     JObj [(''toolCall'', JObj [(''functionCalls'', JArr [write_text_call])]),
           (''serverContent'', JObj [(''interrupted'', JBool True)])]"

text \<open>
  A streamer with callbacks of the hosting code on a suspended context, and the same
  after two chunks have been added: the first is playing, the second is queued.
\<close>

definition hosted_streamer :: streamer where
  "hosted_streamer =
     (new_streamer 24000 True (\<lambda>r. 8000 \<le> r \<and> r \<le> 96000))
       \<lparr>onComplete := Hook 1, onInterruption := Hook 2\<rparr>"

definition playing_streamer :: streamer where
  "playing_streamer =
     snd (addPCM16 (Some [0, -32768]) 3
            (snd (addPCM16 (Some [16384, -16384]) 2 hosted_streamer)))"


section \<open>Notions used in the statements\<close>

text \<open>Whether the next \<^verbatim>\<open>ws.send\<close> will report an error.\<close>

fun next_fails :: "bool list \<Rightarrow> bool" where
  "next_fails [] = False"
| "next_fails (failed # rest) = failed"

text \<open>No send that is still to come reports an error.\<close>

definition reliable :: "session \<Rightarrow> bool" where
  "reliable w \<longleftrightarrow> True \<notin> set (up_fail w) \<and> True \<notin> set (cl_fail w)"

text \<open>Two states of a session with the same sockets.\<close>

definition same_sockets :: "session \<Rightarrow> session \<Rightarrow> bool" where
  "same_sockets w w' \<longleftrightarrow>
     ws w' = ws w \<and> connected w' = connected w \<and> client_ready w' = client_ready w
     \<and> (reliable w \<longrightarrow> reliable w')"

text \<open>
  The invariant of the connection handler: a socket to the upstream exists only after
  a configuration was received, and \<open>connected\<close> is set only after the setup message
  of that configuration was handed to the socket.
\<close>

definition gate_inv :: "session \<Rightarrow> bool" where
  "gate_inv w \<longleftrightarrow>
     (ws w = None \<or> configReceived w \<and> config w \<noteq> None)
     \<and> (\<not> connected w
         \<or> ws w \<noteq> None
           \<and> (\<exists>cfg. config w = Some cfg \<and> UpstreamSend (setupMessage cfg) \<in> set (trace w)))"

text \<open>The fields that decide what the public methods do, as \<^verbatim>\<open>dispose()\<close> leaves them.\<close>

definition inert :: "streamer \<Rightarrow> bool" where
  "inert s \<longleftrightarrow>
     isDisposed s \<and> \<not> isPlaying s \<and> audioQueue s = [] \<and> currentSource s = None
     \<and> playbackTimeout s = None \<and> gain s = 0 \<and> onInterruption s = Noop"


section \<open>Properties of the upstream session\<close>

lemma live_session_eq:
  "live_session =
     \<lparr>ws = Some OPEN,
      config = Some (JObj [(''systemPrompt'', JStr ''x''), (''tools'', JArr [])]),
      connected = True, client_ready = OPEN, configReceived = True,
      connecting = False, receiving = True, up_fail = [], cl_fail = [],
      trace = [UpstreamSend (setupMessage (JObj [(''systemPrompt'', JStr ''x''), (''tools'', JArr [])])),
               ClientSend gemini_ready_event]\<rparr>"
  by (simp add: live_session_def config_frame_def new_session_def onClientMessage_def connect_def
      onUpstreamOpen_def connect_resolved_def sendJsonSafe_def)

lemma isOpen_live: "isOpen live_session"
  by (simp add: live_session_eq isOpen_def)

lemma sendJson_trace:
  "isOpen w \<Longrightarrow> trace (snd (sendJson obj w)) = trace w @ [UpstreamSend obj]"
  by (simp add: sendJson_def split: list.split)

lemma sendJson_closed:
  "\<not> isOpen w \<Longrightarrow>
   sendJson obj w = (Inl (Error ''[GeminiConnection] WebSocket not open or not connected yet.''), w)"
  by (simp add: sendJson_def)

lemma sendJson_cases:
  "trace (snd (sendJson obj w)) = trace w \<and> fst (sendJson obj w) \<noteq> Inr ()
   \<or> trace (snd (sendJson obj w)) = trace w @ [UpstreamSend obj]"
  by (simp add: sendJson_def split: list.split)

lemma sendJsonSafe_cases:
  "trace (snd (sendJsonSafe obj w)) = trace w
   \<or> trace (snd (sendJsonSafe obj w)) = trace w @ [ClientSend obj]"
  by (simp add: sendJsonSafe_def split: list.split)

lemma sendJson_ok:
  "isOpen w \<Longrightarrow> \<not> next_fails (up_fail w) \<Longrightarrow>
   sendJson obj w = (Inr (), w\<lparr>up_fail := tl (up_fail w), trace := trace w @ [UpstreamSend obj]\<rparr>)"
  by (cases "up_fail w") (simp_all add: sendJson_def)

lemma sendJsonSafe_ok:
  "client_ready w = OPEN \<Longrightarrow> \<not> next_fails (cl_fail w) \<Longrightarrow>
   sendJsonSafe obj w = (Inr (), w\<lparr>cl_fail := tl (cl_fail w), trace := trace w @ [ClientSend obj]\<rparr>)"
  by (cases "cl_fail w") (simp_all add: sendJsonSafe_def)

text \<open>
  Claim C5. For every text string, \<^verbatim>\<open>sendText(text)\<close> on an open session hands to the
  upstream socket a \<^verbatim>\<open>client_content\<close> envelope with \<^verbatim>\<open>turn_complete: true\<close> whose
  single user turn has exactly one part, carrying that text. On a session that is not
  open, \<^verbatim>\<open>sendText\<close> and \<^verbatim>\<open>sendImage\<close> fail with the not-connected error and nothing
  is sent: the session, and with it the list of socket calls, is unchanged.
\<close>

theorem sendText_envelope:
  "(isOpen w \<longrightarrow>
      trace (snd (sendText (JStr text) w)) =
        trace w @
        [UpstreamSend
           (JObj [(''client_content'',
                   JObj [(''turns'',
                          JArr [JObj [(''role'', JStr ''user''),
                                      (''parts'', JArr [JObj [(''text'', JStr text)]])]]),
                         (''turn_complete'', JBool True)])])])
   \<and> (\<not> isOpen w \<longrightarrow>
        sendText x w =
          (Inl (Error ''[GeminiConnection] WebSocket not open or not connected yet.''), w)
        \<and> sendImage x w =
          (Inl (Error ''[GeminiConnection] WebSocket not open or not connected yet.''), w))"
  by (simp add: sendText_def sendImage_def user_turn_def sendJson_trace sendJson_closed)

theorem sendText_envelope_witness:
  "isOpen live_session
   \<and> trace (snd (sendText (JStr ''hola'') live_session)) =
       trace live_session @
       [UpstreamSend
          (JObj [(''client_content'',
                  JObj [(''turns'',
                         JArr [JObj [(''role'', JStr ''user''),
                                     (''parts'', JArr [JObj [(''text'', JStr ''hola'')]])]]),
                        (''turn_complete'', JBool True)])])]
   \<and> \<not> isOpen (new_session [] [])
   \<and> sendText (JStr ''hola'') (new_session [] []) =
       (Inl (Error ''[GeminiConnection] WebSocket not open or not connected yet.''),
        new_session [] [])
   \<and> sendImage (JStr ''aGk='') (new_session [] []) =
       (Inl (Error ''[GeminiConnection] WebSocket not open or not connected yet.''),
        new_session [] [])"
  using sendText_envelope [of live_session "''hola''"]
    sendText_envelope [of "new_session [] []" "''hola''" "JStr ''hola''"]
    sendText_envelope [of "new_session [] []" "''hola''" "JStr ''aGk=''"]
  by (simp add: isOpen_live) (simp add: isOpen_def new_session_def)

text \<open>
  Claim C9. For every base64 payload \<open>p\<close>, \<^verbatim>\<open>sendImage(p)\<close> on an open session sends a
  \<^verbatim>\<open>client_content\<close> envelope with \<^verbatim>\<open>turn_complete: true\<close> whose single user turn has
  exactly two parts, in this order: the fixed text \<^verbatim>\<open>Describeme la imagen\<close>, and an
  \<^verbatim>\<open>inline_data\<close> part of MIME type \<^verbatim>\<open>image/jpeg\<close> with data \<open>p\<close>.
\<close>

theorem sendImage_envelope:
  "isOpen w \<Longrightarrow>
   trace (snd (sendImage (JStr p) w)) =
     trace w @
     [UpstreamSend
        (JObj [(''client_content'',
                JObj [(''turns'',
                       JArr [JObj [(''role'', JStr ''user''),
                                   (''parts'',
                                    JArr [JObj [(''text'', JStr ''Describeme la imagen'')],
                                          JObj [(''inline_data'',
                                                 JObj [(''mime_type'', JStr ''image/jpeg''),
                                                       (''data'', JStr p)])]])]]),
                      (''turn_complete'', JBool True)])])]"
  by (simp add: sendImage_def user_turn_def sendJson_trace)

theorem sendImage_envelope_witness:
  "isOpen live_session \<and>
   trace (snd (sendImage (JStr ''aGk='') live_session)) =
     trace live_session @
     [UpstreamSend
        (JObj [(''client_content'',
                JObj [(''turns'',
                       JArr [JObj [(''role'', JStr ''user''),
                                   (''parts'',
                                    JArr [JObj [(''text'', JStr ''Describeme la imagen'')],
                                          JObj [(''inline_data'',
                                                 JObj [(''mime_type'', JStr ''image/jpeg''),
                                                       (''data'', JStr ''aGk='')])]])]]),
                      (''turn_complete'', JBool True)])])]"
  using sendImage_envelope [OF isOpen_live, of "''aGk=''"] by (simp add: isOpen_live)

section \<open>Properties of \<^verbatim>\<open>receive\<close>\<close>

lemma settled_stays: "outcome r \<noteq> Pending \<Longrightarrow> outcome (emit_all es r) = outcome r"
proof (induction es arbitrary: r)
  case Nil
  then show ?case by simp
next
  case (Cons e es)
  have "outcome (emit e r) = outcome r"
    using Cons.prems by (cases e) (simp_all add: settle_def)
  with Cons show ?case by simp
qed

text \<open>
  Claim C6. On an open session the promise of \<^verbatim>\<open>receive()\<close> is pending as long as the
  socket emits nothing, and the first event alone decides it, whatever follows: a
  frame resolves it with that frame, an error rejects it with that error, and a close
  resolves it with the empty result (\<^verbatim>\<open>null\<close>), which is not an error.
\<close>

theorem receive_outcomes:
  "isOpen w \<Longrightarrow>
     outcome (emit_all [] (receive w)) = Pending
   \<and> outcome (emit_all (Message d # es) (receive w)) = Resolved (Some d)
   \<and> outcome (emit_all (Failure err # es) (receive w)) = Rejected err
   \<and> outcome (emit_all (Closure code reason # es) (receive w)) = Resolved None"
  by (simp add: receive_def settle_def settled_stays)

theorem receive_outcomes_witness:
  "isOpen live_session
   \<and> outcome (emit_all [] (receive live_session)) = Pending
   \<and> outcome (emit_all [Message ''{}'', Closure 1000 [], Failure TypeError] (receive live_session))
       = Resolved (Some ''{}'')
   \<and> outcome (emit_all [Failure SendFailed, Closure 1000 [], Failure TypeError] (receive live_session))
       = Rejected SendFailed
   \<and> outcome (emit_all [Closure 1006 [], Closure 1000 [], Failure TypeError] (receive live_session))
       = Resolved None"
  using receive_outcomes [OF isOpen_live, where d = "''{}''"
      and es = "[Closure 1000 [], Failure TypeError]"
      and err = SendFailed and code = 1006 and reason = "[]"]
  by (simp add: isOpen_live)

section \<open>Properties of the tool handlers\<close>

lemma first_error_Inl: "first_error rs = Inl e \<Longrightarrow> Inl e \<in> set rs"
proof (induction rs rule: first_error.induct)
  case (3 x rs)
  then show ?case by (cases "first_error rs") simp_all
qed simp_all

lemma toString_error: "toString v = Inl e \<Longrightarrow> e = TypeError"
proof (induction v rule: toString.induct)
  case (6 xs)
  let ?f = "\<lambda>x. if x = JNull \<or> x = JUndefined then Inr [] else toString x"
  from 6(2) have "first_error (map ?f xs) = Inl e"
    by (simp split: sum.splits)
  then have "Inl e \<in> set (map ?f xs)"
    by (rule first_error_Inl)
  then obtain x where "x \<in> set xs" "x \<noteq> JNull" "x \<noteq> JUndefined" "toString x = Inl e"
    by (auto split: if_splits)
  then show ?case
    using 6(1) by blast
qed (simp_all split: if_splits)

lemma toString_cases: "toString v = Inl TypeError \<or> (\<exists>printed. toString v = Inr printed)"
  using toString_error [of v] by (cases "toString v") auto

text \<open>
  Claim C4. Whatever the call and the state of the two sockets, \<^verbatim>\<open>handleWriteText\<close>
  makes no socket call, or sends only the acknowledgment upstream, or sends the
  acknowledgment upstream and then the \<^verbatim>\<open>tool_text\<close> event to the client: the event
  never goes out without the Tool Response for the call's id having been sent before
  it, on an open upstream session and with a send that reported no error. When the
  call is an object, both sockets are open, the upstream send does not fail and the
  text has a string form, both are sent, in that order.
\<close>

theorem write_text_ack_first:
  "(trace (handleWriteText fc w) = trace w
    \<or> trace (handleWriteText fc w) =
         trace w @
         [UpstreamSend
            (JObj [(''tool_response'',
                    JObj [(''function_responses'',
                           JArr [JObj [(''id'', opt_prop fc ''id''),
                                       (''name'', opt_prop fc ''name''),
                                       (''response'',
                                        JObj [(''rendered'', JBool True),
                                              (''state'', JStr ''continue conversation'')])]])])])]
    \<or> trace (handleWriteText fc w) =
         trace w @
         [UpstreamSend
            (JObj [(''tool_response'',
                    JObj [(''function_responses'',
                           JArr [JObj [(''id'', opt_prop fc ''id''),
                                       (''name'', opt_prop fc ''name''),
                                       (''response'',
                                        JObj [(''rendered'', JBool True),
                                              (''state'', JStr ''continue conversation'')])]])])]),
          ClientSend
            (JObj [(''type'', JStr ''tool_text''),
                   (''data'', or_else (opt_prop (opt_prop fc ''args'') ''text'') (JStr []))])]
      \<and> isOpen w \<and> \<not> next_fails (up_fail w))
   \<and> (fc \<noteq> JNull \<and> fc \<noteq> JUndefined \<and> isOpen w \<and> \<not> next_fails (up_fail w)
        \<and> client_ready w = OPEN
        \<and> toString (or_else (opt_prop (opt_prop fc ''args'') ''text'') (JStr [])) \<noteq> Inl TypeError
        \<longrightarrow>
        trace (handleWriteText fc w) =
          trace w @
          [UpstreamSend
             (JObj [(''tool_response'',
                     JObj [(''function_responses'',
                            JArr [JObj [(''id'', opt_prop fc ''id''),
                                        (''name'', opt_prop fc ''name''),
                                        (''response'',
                                         JObj [(''rendered'', JBool True),
                                               (''state'', JStr ''continue conversation'')])]])])]),
           ClientSend
             (JObj [(''type'', JStr ''tool_text''),
                    (''data'', or_else (opt_prop (opt_prop fc ''args'') ''text'') (JStr []))])])"
proof (cases "fc = JNull \<or> fc = JUndefined")
  case True
  then have "handleWriteText fc w = w"
    by (auto simp: handleWriteText_def)
  with True show ?thesis by auto
next
  case False
  then have props: "get_prop fc k = Inr (opt_prop fc k)" for k
    by (cases fc) (simp_all add: opt_prop_def)
  let ?ack = "tool_ack (opt_prop fc ''id'') (opt_prop fc ''name'')"
  let ?text = "or_else (opt_prop (opt_prop fc ''args'') ''text'') (JStr [])"
  let ?show = "tool_text_event ?text"
  have unfold: "handleWriteText fc w =
      (case sendJson ?ack w of
         (Inl e, w1) \<Rightarrow> w1
       | (Inr u, w1) \<Rightarrow>
           (case toString ?text of
              Inl e \<Rightarrow> w1
            | Inr printed \<Rightarrow> snd (sendJsonSafe ?show w1)))"
    by (cases "sendJson ?ack w")
       (auto simp: handleWriteText_def props Let_def split: sum.split)
  show ?thesis
  proof (cases "isOpen w \<and> \<not> next_fails (up_fail w)")
    case True
    let ?w1 = "w\<lparr>up_fail := tl (up_fail w), trace := trace w @ [UpstreamSend ?ack]\<rparr>"
    have sent: "sendJson ?ack w = (Inr (), ?w1)"
      using True by (simp add: sendJson_ok)
    have "trace (handleWriteText fc w) = trace w @ [UpstreamSend ?ack]"
      if "toString ?text = Inl e" for e
      using that by (simp add: unfold sent)
    moreover have "handleWriteText fc w = snd (sendJsonSafe ?show ?w1)"
      if "toString ?text = Inr printed" for printed
      using that by (simp add: unfold sent)
    moreover have "trace (snd (sendJsonSafe ?show ?w1)) = trace w @ [UpstreamSend ?ack]
        \<or> trace (snd (sendJsonSafe ?show ?w1)) = trace w @ [UpstreamSend ?ack, ClientSend ?show]"
      using sendJsonSafe_cases [of ?show ?w1] by simp
    moreover have "trace (snd (sendJsonSafe ?show ?w1)) =
        trace w @ [UpstreamSend ?ack, ClientSend ?show]"
      if "client_ready w = OPEN"
      using that by (simp add: sendJsonSafe_def split: list.split)
    ultimately show ?thesis
      using True False toString_cases [of ?text]
      by (auto simp: tool_ack_def tool_response_def tool_text_event_def)
  next
    case closed: False
    then have "fst (sendJson ?ack w) \<noteq> Inr ()"
      by (cases "up_fail w") (auto simp: sendJson_def)
    then have "handleWriteText fc w = snd (sendJson ?ack w)"
      unfolding unfold by (cases "sendJson ?ack w") (auto split: sum.split)
    then show ?thesis
      using closed sendJson_cases [of ?ack w]
      by (auto simp: tool_ack_def tool_response_def)
  qed
qed

theorem write_text_ack_first_witness:
  "write_text_call \<noteq> JNull \<and> write_text_call \<noteq> JUndefined \<and> isOpen live_session
   \<and> \<not> next_fails (up_fail live_session) \<and> client_ready live_session = OPEN
   \<and> toString (or_else (opt_prop (opt_prop write_text_call ''args'') ''text'') (JStr []))
       \<noteq> Inl TypeError
   \<and> trace (handleWriteText write_text_call live_session) =
       trace live_session @
       [UpstreamSend
          (JObj [(''tool_response'',
                  JObj [(''function_responses'',
                         JArr [JObj [(''id'', JStr ''1''),
                                     (''name'', JStr ''write_text''),
                                     (''response'',
                                      JObj [(''rendered'', JBool True),
                                            (''state'', JStr ''continue conversation'')])]])])]),
        ClientSend (JObj [(''type'', JStr ''tool_text''), (''data'', JStr ''ABC'')])]"
  using write_text_ack_first [of write_text_call live_session]
  by (simp add: isOpen_live) (simp add: live_session_eq write_text_call_def opt_prop_def or_else_def)


section \<open>Properties of the receive loop\<close>

lemma reliable_next: "reliable w \<Longrightarrow> \<not> next_fails (up_fail w) \<and> \<not> next_fails (cl_fail w)"
  by (cases "up_fail w"; cases "cl_fail w") (auto simp: reliable_def)

lemma sendJson_frame:
  "ws (snd (sendJson obj w)) = ws w \<and> connected (snd (sendJson obj w)) = connected w
   \<and> client_ready (snd (sendJson obj w)) = client_ready w
   \<and> (reliable w \<longrightarrow> reliable (snd (sendJson obj w)))"
  by (auto simp: sendJson_def reliable_def split: list.split)

lemma sendJsonSafe_frame:
  "ws (snd (sendJsonSafe obj w)) = ws w \<and> connected (snd (sendJsonSafe obj w)) = connected w
   \<and> client_ready (snd (sendJsonSafe obj w)) = client_ready w
   \<and> (reliable w \<longrightarrow> reliable (snd (sendJsonSafe obj w)))"
  by (auto simp: sendJsonSafe_def reliable_def split: list.split)

lemma same_sockets_refl: "same_sockets w w"
  by (simp add: same_sockets_def)

lemma same_sockets_trans: "same_sockets a b \<Longrightarrow> same_sockets b c \<Longrightarrow> same_sockets a c"
  by (simp add: same_sockets_def)

lemma same_sockets_sendJson: "same_sockets w (snd (sendJson obj w))"
  using sendJson_frame [of obj w] by (simp add: same_sockets_def)

lemma same_sockets_sendJsonSafe: "same_sockets w (snd (sendJsonSafe obj w))"
  using sendJsonSafe_frame [of obj w] by (simp add: same_sockets_def)

lemma same_sockets_ack_then_event:
  "same_sockets w (case sendJson a w of (Inl e, w1) \<Rightarrow> w1
                   | (Inr u, w1) \<Rightarrow> snd (sendJsonSafe b w1))"
proof (cases "sendJson a w")
  case (Pair r w1)
  then have 1: "same_sockets w w1"
    using same_sockets_sendJson [of w a] by simp
  show ?thesis
  proof (cases r)
    case (Inl e)
    with Pair 1 show ?thesis by simp
  next
    case (Inr u)
    with Pair 1 same_sockets_sendJsonSafe [of w1 b] show ?thesis
      by (auto intro: same_sockets_trans)
  qed
qed

lemma same_sockets_handleWriteText: "same_sockets w (handleWriteText fc w)"
proof -
  have "same_sockets w (case sendJson a w of
                          (Inl e, w1) \<Rightarrow> w1
                        | (Inr u, w1) \<Rightarrow>
                            (case toString t of
                               Inl e \<Rightarrow> w1
                             | Inr printed \<Rightarrow> snd (sendJsonSafe b w1)))" for a t b
    using same_sockets_ack_then_event [where w = w and a = a and b = b]
      same_sockets_sendJson [where w = w and obj = a]
    by (cases "sendJson a w"; cases "toString t") (auto split: sum.split)
  then show ?thesis
    unfolding handleWriteText_def Let_def
    by (auto split: sum.split simp: same_sockets_refl)
qed

lemma same_sockets_handleEndCall: "same_sockets w (handleEndCall fc w)"
  unfolding handleEndCall_def
  by (auto split: sum.split simp: same_sockets_refl same_sockets_ack_then_event)

lemma same_sockets_handleToolCall: "same_sockets w (handleToolCall fc w)"
proof -
  have "same_sockets w (call_handler h fc w)" for h
    by (cases h) (simp_all add: same_sockets_handleWriteText same_sockets_handleEndCall
        same_sockets_refl)
  then show ?thesis
    unfolding handleToolCall_def
    by (auto split: sum.split option.split simp: same_sockets_refl same_sockets_sendJson)
qed

lemma same_sockets_handleToolCalls: "same_sockets w (handleToolCalls fcs w)"
proof (induction fcs arbitrary: w)
  case Nil
  show ?case by (simp add: same_sockets_refl)
next
  case (Cons fc fcs)
  from same_sockets_handleToolCall [of w fc] Cons [of "handleToolCall fc w"]
  show ?case by (auto intro: same_sockets_trans)
qed

lemma truthy_prop_object: "truthy (opt_prop v k) \<Longrightarrow> \<exists>kvs. v = JObj kvs"
  by (cases v) (simp_all add: opt_prop_def)

lemma dispatch_object:
  "fst (dispatchToolCalls (JObj kvs) w) = Inr ()
   \<and> same_sockets w (snd (dispatchToolCalls (JObj kvs) w))"
  by (simp add: dispatchToolCalls_def same_sockets_refl same_sockets_handleToolCalls)

lemma interruption_cases:
  "trace (interruption w) = trace w
   \<or> trace (interruption w) = trace w @ [ClientSend interrupted_event]
   \<or> trace (interruption w) = trace w @ [UpstreamSend (user_turn [] True)]
   \<or> trace (interruption w) =
        trace w @ [ClientSend interrupted_event, UpstreamSend (user_turn [] True)]
   \<or> trace (interruption w) =
        trace w @ [ClientSend interrupted_event, UpstreamSend (user_turn [] True),
                   ClientSend turn_complete_event]"
  by (simp add: interruption_def sendEnd_def sendJsonSafe_def sendJson_def isOpen_def
      split: list.split)

lemma interruption_full:
  assumes "isOpen w" "client_ready w = OPEN" "reliable w"
  shows "trace (interruption w) =
           trace w @ [ClientSend interrupted_event, UpstreamSend (user_turn [] True),
                      ClientSend turn_complete_event]"
proof -
  have c: "\<not> next_fails (cl_fail w)" and u: "\<not> next_fails (up_fail w)"
    using reliable_next [OF assms(3)] by simp_all
  have c': "\<not> next_fails (tl (cl_fail w))"
    using assms(3) by (cases "cl_fail w"; cases "tl (cl_fail w)") (auto simp: reliable_def)
  show ?thesis
    using assms(1,2) c u c'
    by (simp add: interruption_def sendEnd_def sendJsonSafe_ok sendJson_ok isOpen_def)
qed

text \<open>
  Claim C2, as the code has it. A frame that carries an interruption flag, at the top
  level or inside \<^verbatim>\<open>serverContent\<close>, first goes through the tool-call step like any
  frame: its tool calls, if it has any, are dispatched, without an exception, and a
  frame without a \<^verbatim>\<open>functionCalls\<close> array leaves that step with the session
  unchanged. After that step the relay makes, in every state of the sockets, only
  calls out of this sequence and in this order: the interruption event to the client,
  the empty turn-completion of \<^verbatim>\<open>sendEnd()\<close> upstream, the \<^verbatim>\<open>turn_complete\<close> event to
  the client; the model content and the completion flag of the frame are not
  processed, and the loop goes on. So \<^verbatim>\<open>turn_complete\<close> never reaches the client
  without the interruption event before it. With both sockets open and no send
  failing, all three calls are made.
\<close>

theorem interruption_sequence:
  assumes "truthy (opt_prop response ''interrupted'')
           \<or> truthy (opt_prop (opt_prop response ''serverContent'') ''interrupted'')"
  shows "fst (dispatchToolCalls response w) = Inr ()
     \<and> (\<not> (truthy (opt_prop response ''toolCall'')
             \<and> isArray (opt_prop (opt_prop response ''toolCall'') ''functionCalls''))
          \<longrightarrow> snd (dispatchToolCalls response w) = w)
     \<and> fst (processFrame response w)
     \<and> (trace (snd (processFrame response w)) = trace (snd (dispatchToolCalls response w))
        \<or> trace (snd (processFrame response w)) =
             trace (snd (dispatchToolCalls response w)) @
             [ClientSend (JObj [(''type'', JStr ''serverContent''),
                                (''serverContent'',
                                 JObj [(''interrupted'', JBool True),
                                       (''turnComplete'', JBool True)])])]
        \<or> trace (snd (processFrame response w)) =
             trace (snd (dispatchToolCalls response w)) @
             [UpstreamSend
                (JObj [(''client_content'',
                        JObj [(''turns'',
                               JArr [JObj [(''role'', JStr ''user''), (''parts'', JArr [])]]),
                              (''turn_complete'', JBool True)])])]
        \<or> trace (snd (processFrame response w)) =
             trace (snd (dispatchToolCalls response w)) @
             [ClientSend (JObj [(''type'', JStr ''serverContent''),
                                (''serverContent'',
                                 JObj [(''interrupted'', JBool True),
                                       (''turnComplete'', JBool True)])]),
              UpstreamSend
                (JObj [(''client_content'',
                        JObj [(''turns'',
                               JArr [JObj [(''role'', JStr ''user''), (''parts'', JArr [])]]),
                              (''turn_complete'', JBool True)])])]
        \<or> trace (snd (processFrame response w)) =
             trace (snd (dispatchToolCalls response w)) @
             [ClientSend (JObj [(''type'', JStr ''serverContent''),
                                (''serverContent'',
                                 JObj [(''interrupted'', JBool True),
                                       (''turnComplete'', JBool True)])]),
              UpstreamSend
                (JObj [(''client_content'',
                        JObj [(''turns'',
                               JArr [JObj [(''role'', JStr ''user''), (''parts'', JArr [])]]),
                              (''turn_complete'', JBool True)])]),
              ClientSend (JObj [(''type'', JStr ''turn_complete''), (''data'', JBool True)])])
     \<and> (isOpen w \<and> client_ready w = OPEN \<and> reliable w \<longrightarrow>
          trace (snd (processFrame response w)) =
            trace (snd (dispatchToolCalls response w)) @
            [ClientSend (JObj [(''type'', JStr ''serverContent''),
                               (''serverContent'',
                                JObj [(''interrupted'', JBool True),
                                      (''turnComplete'', JBool True)])]),
             UpstreamSend
               (JObj [(''client_content'',
                       JObj [(''turns'',
                              JArr [JObj [(''role'', JStr ''user''), (''parts'', JArr [])]]),
                             (''turn_complete'', JBool True)])]),
             ClientSend (JObj [(''type'', JStr ''turn_complete''), (''data'', JBool True)])])"
proof -
  have "truthy (opt_prop response ''serverContent'')"
    if "truthy (opt_prop (opt_prop response ''serverContent'') ''interrupted'')"
    using truthy_prop_object [OF that] by auto
  with assms obtain kvs where obj: "response = JObj kvs"
    using truthy_prop_object by blast
  let ?w1 = "snd (dispatchToolCalls response w)"
  have ok: "fst (dispatchToolCalls response w) = Inr ()" and same: "same_sockets w ?w1"
    using dispatch_object [of kvs w] obj by simp_all
  have none: "?w1 = w"
    if "\<not> (truthy (opt_prop response ''toolCall'')
           \<and> isArray (opt_prop (opt_prop response ''toolCall'') ''functionCalls''))"
    using that obj by (auto simp: dispatchToolCalls_def opt_prop_def)
  have pf: "processFrame response w = (True, interruption ?w1)"
    using ok assms by (cases "dispatchToolCalls response w") (simp add: processFrame_def forward_def)
  have full: "trace (interruption ?w1) =
           trace ?w1 @ [ClientSend interrupted_event, UpstreamSend (user_turn [] True),
                      ClientSend turn_complete_event]"
    if "isOpen w" "client_ready w = OPEN" "reliable w"
    using that same by (intro interruption_full) (simp_all add: same_sockets_def isOpen_def)
  show ?thesis
    using ok none pf interruption_cases [of ?w1] full
    by (simp add: interrupted_event_def user_turn_def turn_complete_event_def)
qed

theorem interruption_sequence_witness:
  "truthy (opt_prop (opt_prop interrupted_frame ''serverContent'') ''interrupted'')
   \<and> \<not> truthy (opt_prop interrupted_frame ''toolCall'')
   \<and> snd (dispatchToolCalls interrupted_frame live_session) = live_session
   \<and> isOpen live_session \<and> client_ready live_session = OPEN \<and> reliable live_session
   \<and> trace (snd (processFrame interrupted_frame live_session)) =
       trace live_session @
       [ClientSend (JObj [(''type'', JStr ''serverContent''),
                          (''serverContent'',
                           JObj [(''interrupted'', JBool True),
                                 (''turnComplete'', JBool True)])]),
        UpstreamSend
          (JObj [(''client_content'',
                  JObj [(''turns'',
                         JArr [JObj [(''role'', JStr ''user''), (''parts'', JArr [])]]),
                        (''turn_complete'', JBool True)])]),
        ClientSend (JObj [(''type'', JStr ''turn_complete''), (''data'', JBool True)])]"
proof -
  have flag: "truthy (opt_prop (opt_prop interrupted_frame ''serverContent'') ''interrupted'')"
    by (simp add: interrupted_frame_def opt_prop_def)
  have live: "isOpen live_session \<and> client_ready live_session = OPEN \<and> reliable live_session"
    by (simp add: isOpen_live) (simp add: live_session_eq reliable_def)
  have no_calls: "\<not> truthy (opt_prop interrupted_frame ''toolCall'')"
    by (simp add: interrupted_frame_def opt_prop_def)
  show ?thesis
    using interruption_sequence [of interrupted_frame live_session] flag live no_calls
    by simp
qed

text \<open>
  Claim C2 as stated fails on a frame that carries a tool call and an interruption
  flag: the relay does process something else of that frame. It answers the
  \<^verbatim>\<open>write_text\<close> call upstream and sends its \<^verbatim>\<open>tool_text\<close> event to the client, and
  only then sends the interruption event, the turn-completion and \<^verbatim>\<open>turn_complete\<close>.
\<close>

theorem interruption_sequence_counterexample:
  "truthy (opt_prop (opt_prop interrupted_tool_frame ''serverContent'') ''interrupted'')
   \<and> trace (snd (processFrame interrupted_tool_frame live_session)) =
       trace live_session @
       [UpstreamSend
          (JObj [(''tool_response'',
                  JObj [(''function_responses'',
                         JArr [JObj [(''id'', JStr ''1''),
                                     (''name'', JStr ''write_text''),
                                     (''response'',
                                      JObj [(''rendered'', JBool True),
                                            (''state'', JStr ''continue conversation'')])]])])]),
        ClientSend (JObj [(''type'', JStr ''tool_text''), (''data'', JStr ''ABC'')]),
        ClientSend (JObj [(''type'', JStr ''serverContent''),
                          (''serverContent'',
                           JObj [(''interrupted'', JBool True),
                                 (''turnComplete'', JBool True)])]),
        UpstreamSend
          (JObj [(''client_content'',
                  JObj [(''turns'',
                         JArr [JObj [(''role'', JStr ''user''), (''parts'', JArr [])]]),
                        (''turn_complete'', JBool True)])]),
        ClientSend (JObj [(''type'', JStr ''turn_complete''), (''data'', JBool True)])]"
  by (simp add: interrupted_tool_frame_def write_text_call_def live_session_eq processFrame_def
      dispatchToolCalls_def handleToolCall_def toolHandlers_def handleWriteText_def opt_prop_def
      or_else_def forward_def interruption_def sendEnd_def sendJson_def sendJsonSafe_def
      isOpen_def tool_ack_def tool_response_def tool_text_event_def interrupted_event_def
      user_turn_def turn_complete_event_def)


text \<open>
  Tool calls are dispatched in array order, and away from the names that
  \<^verbatim>\<open>Object.prototype\<close> provides each call is answered once: on an open session whose
  sends do not fail, the upstream sends made for a list of calls that are objects
  (with a name, and for \<^verbatim>\<open>write_text\<close> a text, that has a string form) are, in the
  order of the list, the acknowledgment of each \<^verbatim>\<open>write_text\<close> and \<^verbatim>\<open>end_call\<close>
  and the \<^verbatim>\<open>Tool not implemented\<close> response of each other call.
\<close>

lemma handleToolCalls_append:
  "handleToolCalls (xs @ ys) w = handleToolCalls ys (handleToolCalls xs w)"
  by (induction xs arbitrary: w) simp_all

lemma ack_then_event_upstream:
  assumes "isOpen w" "reliable w"
  shows "\<exists>new. trace (case sendJson a w of (Inl e, w1) \<Rightarrow> w1
                       | (Inr u, w1) \<Rightarrow> snd (sendJsonSafe b w1)) = trace w @ new
               \<and> filter is_upstream_send new = [UpstreamSend a]"
proof -
  have ok: "sendJson a w = (Inr (), w\<lparr>up_fail := tl (up_fail w), trace := trace w @ [UpstreamSend a]\<rparr>)"
    using assms reliable_next by (simp add: sendJson_ok)
  let ?w1 = "w\<lparr>up_fail := tl (up_fail w), trace := trace w @ [UpstreamSend a]\<rparr>"
  from sendJsonSafe_cases [of b ?w1] show ?thesis
    unfolding ok by auto
qed

lemma handleToolCall_answers:
  assumes "isOpen w" "reliable w"
    and "toString (opt_prop (JObj kvs) ''name'') = Inr printed"
    and "printed \<notin> set object_prototype_keys"
    and "toString (or_else (opt_prop (opt_prop (JObj kvs) ''args'') ''text'') (JStr []))
           \<noteq> Inl TypeError"
  shows "\<exists>new. trace (handleToolCall (JObj kvs) w) = trace w @ new
               \<and> filter is_upstream_send new =
                   [UpstreamSend
                      (if printed \<in> {''write_text'', ''end_call''}
                       then tool_ack (opt_prop (JObj kvs) ''id'') (opt_prop (JObj kvs) ''name'')
                       else tool_not_implemented (opt_prop (JObj kvs) ''id'')
                              (opt_prop (JObj kvs) ''name'') printed)]"
proof -
  let ?fc = "JObj kvs"
  let ?name = "opt_prop ?fc ''name''"
  let ?text = "or_else (opt_prop (opt_prop ?fc ''args'') ''text'') (JStr [])"
  obtain shown where shown: "toString ?text = Inr shown"
    using assms(5) toString_cases [of ?text] by auto
  have name: "toString (case map_of kvs ''name'' of None \<Rightarrow> JUndefined | Some v \<Rightarrow> v)
                = Inr printed"
    using assms(3) by (simp add: opt_prop_def)
  consider (wtext) "printed = ''write_text''"
    | (endc) "printed = ''end_call''"
    | (none) "printed \<noteq> ''write_text''" "printed \<noteq> ''end_call''"
    by blast
  then show ?thesis
  proof cases
    case wtext
    then have "handleToolCall ?fc w = handleWriteText ?fc w"
      by (simp add: handleToolCall_def name toolHandlers_def)
    moreover have "handleWriteText ?fc w =
        (case sendJson (tool_ack (opt_prop ?fc ''id'') ?name) w of
           (Inl e, w1) \<Rightarrow> w1
         | (Inr u, w1) \<Rightarrow> snd (sendJsonSafe (tool_text_event ?text) w1))"
      using shown
      by (cases "sendJson (tool_ack (opt_prop ?fc ''id'') ?name) w")
         (auto simp: handleWriteText_def opt_prop_def Let_def split: sum.split)
    ultimately show ?thesis
      using wtext ack_then_event_upstream [OF assms(1,2)] by simp
  next
    case endc
    then have "handleToolCall ?fc w = handleEndCall ?fc w"
      by (simp add: handleToolCall_def name toolHandlers_def)
    then show ?thesis
      using endc ack_then_event_upstream [OF assms(1,2)]
      by (simp add: handleEndCall_def opt_prop_def)
  next
    case none
    then have "handleToolCall ?fc w =
        snd (sendJson (tool_not_implemented (opt_prop ?fc ''id'') ?name printed) w)"
      using assms(4) by (simp add: handleToolCall_def name opt_prop_def toolHandlers_def)
    then show ?thesis
      using none sendJson_trace [OF assms(1)] by simp
  qed
qed

lemma tool_calls_answered_in_order:
  assumes "isOpen w" "reliable w"
    and "\<forall>fc \<in> set fcs. \<exists>kvs printed. fc = JObj kvs
            \<and> toString (opt_prop fc ''name'') = Inr printed
            \<and> printed \<notin> set object_prototype_keys
            \<and> toString (or_else (opt_prop (opt_prop fc ''args'') ''text'') (JStr []))
                \<noteq> Inl TypeError"
  shows "\<exists>new. trace (handleToolCalls fcs w) = trace w @ new
               \<and> filter is_upstream_send new =
                   map (\<lambda>fc. UpstreamSend
                          (if toString (opt_prop fc ''name'')
                                \<in> {Inr ''write_text'', Inr ''end_call''}
                           then tool_ack (opt_prop fc ''id'') (opt_prop fc ''name'')
                           else tool_not_implemented (opt_prop fc ''id'') (opt_prop fc ''name'')
                                  (case toString (opt_prop fc ''name'') of
                                     Inl e \<Rightarrow> [] | Inr printed \<Rightarrow> printed)))
                     fcs"
  using assms
proof (induction fcs arbitrary: w)
  case Nil
  then show ?case by simp
next
  case (Cons fc fcs)
  then obtain kvs printed where fc: "fc = JObj kvs"
    and name: "toString (opt_prop (JObj kvs) ''name'') = Inr printed"
      "printed \<notin> set object_prototype_keys"
      "toString (or_else (opt_prop (opt_prop (JObj kvs) ''args'') ''text'') (JStr []))
         \<noteq> Inl TypeError"
    by auto
  let ?w1 = "handleToolCall fc w"
  let ?answer = "\<lambda>fc. UpstreamSend
              (if toString (opt_prop fc ''name'') \<in> {Inr ''write_text'', Inr ''end_call''}
               then tool_ack (opt_prop fc ''id'') (opt_prop fc ''name'')
               else tool_not_implemented (opt_prop fc ''id'') (opt_prop fc ''name'')
                      (case toString (opt_prop fc ''name'') of
                         Inl e \<Rightarrow> [] | Inr printed \<Rightarrow> printed))"
  from handleToolCall_answers [OF Cons.prems(1,2) name] fc name(1)
  obtain new1 where new1: "trace ?w1 = trace w @ new1"
    "filter is_upstream_send new1 = [?answer fc]"
    by auto
  have same: "same_sockets w ?w1"
    by (rule same_sockets_handleToolCall)
  then have "isOpen ?w1" "reliable ?w1"
    using Cons.prems(1,2) by (simp_all add: same_sockets_def isOpen_def)
  from Cons.IH [OF this] Cons.prems(3)
  obtain new2 where new2: "trace (handleToolCalls fcs ?w1) = trace ?w1 @ new2"
    "filter is_upstream_send new2 = map ?answer fcs"
    by auto
  show ?case
    using new1 new2 by (intro exI [of _ "new1 @ new2"]) simp
qed

text \<open>
  Claim C3, at a call whose name is a property of \<^verbatim>\<open>Object.prototype\<close>. The name
  \<^verbatim>\<open>constructor\<close> is neither \<^verbatim>\<open>write_text\<close> nor \<^verbatim>\<open>end_call\<close>, yet on an open session the
  frame \<^verbatim>\<open>{toolCall: {functionCalls: [{id: "1", name: "constructor", args: {}}]}}\<close> is
  processed without any call on a socket: no Tool Response is sent upstream.
\<close>

theorem inherited_name_dropped:
  "toString (JStr ''constructor'') \<noteq> Inr ''write_text''
   \<and> toString (JStr ''constructor'') \<noteq> Inr ''end_call''
   \<and> isOpen live_session
   \<and> processFrame inherited_call_frame live_session = (True, live_session)"
  by (simp add: isOpen_live)
     (simp add: processFrame_def dispatchToolCalls_def inherited_call_frame_def inherited_call_def
      opt_prop_def handleToolCall_def toolHandlers_def object_prototype_keys_def forward_def
      forwardModelTurn_def)


section \<open>Properties of the connection handler\<close>

lemma close_client_fields:
  "ws (close_client c r w) = ws w" "config (close_client c r w) = config w"
  "connected (close_client c r w) = connected w"
  "configReceived (close_client c r w) = configReceived w"
  "trace (close_client c r w) = trace w @ [ClientClose c r]"
  by (simp_all add: close_client_def)

lemma gate_inv_grow:
  assumes "gate_inv w" "ws w' = ws w" "config w' = config w" "connected w' = connected w"
    "configReceived w' = configReceived w" "set (trace w) \<subseteq> set (trace w')"
  shows "gate_inv w'"
  using assms unfolding gate_inv_def by auto

lemma sendJson_fields:
  "ws (snd (sendJson obj w)) = ws w" "config (snd (sendJson obj w)) = config w"
  "connected (snd (sendJson obj w)) = connected w"
  "configReceived (snd (sendJson obj w)) = configReceived w"
  by (auto simp: sendJson_def split: list.split)

lemma sendJson_grows: "set (trace w) \<subseteq> set (trace (snd (sendJson obj w)))"
  by (auto simp: sendJson_def split: list.split)

lemma sendJsonSafe_fields:
  "ws (snd (sendJsonSafe obj w)) = ws w" "config (snd (sendJsonSafe obj w)) = config w"
  "connected (snd (sendJsonSafe obj w)) = connected w"
  "configReceived (snd (sendJsonSafe obj w)) = configReceived w"
  by (auto simp: sendJsonSafe_def split: list.split)

lemma sendJsonSafe_grows: "set (trace w) \<subseteq> set (trace (snd (sendJsonSafe obj w)))"
  by (auto simp: sendJsonSafe_def split: list.split)

lemma gate_inv_sendJson:
  assumes "gate_inv w"
  shows "gate_inv (snd (sendJson obj w))"
  using assms by (rule gate_inv_grow) (simp_all add: sendJson_fields sendJson_grows)

lemma gate_inv_forward: "gate_inv w \<Longrightarrow> gate_inv (forwardClientFrame mtype data w)"
  by (simp add: forwardClientFrame_def sendImage_def sendText_def sendContinue_def sendEnd_def
      gate_inv_sendJson)

lemma gate_inv_close:
  assumes "gate_inv w"
  shows "gate_inv (close_client c r w)"
  using assms by (rule gate_inv_grow) (auto simp: close_client_fields)

lemma gate_inv_rejected: "gate_inv w \<Longrightarrow> gate_inv (connect_rejected w)"
proof -
  assume inv: "gate_inv w"
  then have "gate_inv (w\<lparr>connecting := False\<rparr>)"
    by (rule gate_inv_grow) simp_all
  then show ?thesis
    using inv by (simp add: connect_rejected_def gate_inv_close)
qed

lemma gate_inv_resolved:
  assumes inv: "gate_inv w"
  shows "gate_inv (connect_resolved w)"
proof (cases "connecting w")
  case False
  with inv show ?thesis by (simp add: connect_resolved_def)
next
  case True
  let ?w0 = "w\<lparr>connecting := False\<rparr>"
  obtain r w1 where sent: "sendJsonSafe gemini_ready_event ?w0 = (r, w1)"
    by (cases "sendJsonSafe gemini_ready_event ?w0") blast
  have 0: "gate_inv ?w0"
    using inv by (rule gate_inv_grow) simp_all
  have fields: "ws w1 = ws ?w0" "config w1 = config ?w0" "connected w1 = connected ?w0"
    "configReceived w1 = configReceived ?w0" "set (trace ?w0) \<subseteq> set (trace w1)"
    using sendJsonSafe_fields [of gemini_ready_event ?w0]
      sendJsonSafe_grows [of ?w0 gemini_ready_event] sent by simp_all
  have 1: "gate_inv w1"
    using 0 fields by (rule gate_inv_grow)
  have 2: "gate_inv (w1\<lparr>receiving := True\<rparr>)"
    using 1 by (rule gate_inv_grow) simp_all
  show ?thesis
    using True sent 2 gate_inv_close [OF 1]
    by (cases r) (simp_all add: connect_resolved_def)
qed

lemma gate_inv_onClientMessage: "gate_inv w \<Longrightarrow> gate_inv (onClientMessage raw w)"
proof -
  assume inv: "gate_inv w"
  have config_branch: "gate_inv (connect (w\<lparr>configReceived := True, config := Some cfg\<rparr>))"
    if "\<not> configReceived w" for cfg
  proof -
    from inv that have "ws w = None" "\<not> connected w"
      by (auto simp: gate_inv_def)
    then have a: "gate_inv (w\<lparr>configReceived := True, config := Some cfg, connecting := True\<rparr>)"
      and b: "gate_inv (w\<lparr>configReceived := True, config := Some cfg,
                          ws := Some CONNECTING, connecting := True\<rparr>)"
      by (simp_all add: gate_inv_def)
    show ?thesis
      using a b gate_inv_rejected [OF a] by (simp add: connect_def)
  qed
  have flag: "gate_inv (w\<lparr>configReceived := True\<rparr>)"
    using inv by (auto simp: gate_inv_def)
  show ?thesis
    using inv config_branch flag gate_inv_close [OF flag]
    by (auto simp: onClientMessage_def gate_inv_close gate_inv_forward Let_def
        split: option.split sum.split)
qed

lemma gate_inv_onUpstreamOpen: "gate_inv w \<Longrightarrow> gate_inv (onUpstreamOpen w)"
proof (cases "ws w = Some CONNECTING")
  case False
  then show "gate_inv w \<Longrightarrow> ?thesis" by (simp add: onUpstreamOpen_def)
next
  case True
  assume inv: "gate_inv w"
  with True obtain cfg where cfg: "config w = Some cfg"
    by (auto simp: gate_inv_def)
  let ?w1 = "w\<lparr>ws := Some OPEN, connected := True\<rparr>"
  have sent: "gate_inv (?w1\<lparr>up_fail := u, trace := trace ?w1 @ [UpstreamSend (setupMessage cfg)]\<rparr>)"
    for u
    using inv True cfg by (simp add: gate_inv_def)
  have sent': "gate_inv (?w1\<lparr>trace := trace ?w1 @ [UpstreamSend (setupMessage cfg)]\<rparr>)"
    using inv True cfg by (simp add: gate_inv_def)
  show ?thesis
    using True cfg sent sent' gate_inv_rejected [OF sent]
    by (simp add: onUpstreamOpen_def Let_def split: list.split)
qed

lemma gate_inv_step: "gate_inv w \<Longrightarrow> gate_inv (step e w)"
proof (cases e)
  case UpstreamClose
  assume "gate_inv w"
  then show ?thesis using UpstreamClose by (auto simp: gate_inv_def)
qed (simp_all add: gate_inv_onClientMessage gate_inv_onUpstreamOpen gate_inv_resolved
      gate_inv_rejected)

lemma gate_inv_run: "gate_inv w \<Longrightarrow> gate_inv (run evs w)"
  by (induction evs arbitrary: w) (simp_all add: gate_inv_step)

lemma gate_inv_new: "gate_inv (new_session up cl)"
  by (simp add: gate_inv_def new_session_def)

lemma sendJson_upstream:
  "filter is_upstream_send (trace (snd (sendJson obj w))) \<noteq> filter is_upstream_send (trace w)
   \<Longrightarrow> isOpen w"
  by (auto simp: sendJson_def split: if_splits)

lemma close_client_upstream:
  "filter is_upstream_send (trace (close_client c r w)) = filter is_upstream_send (trace w)"
  by (simp add: close_client_def)

lemma forward_upstream:
  "filter is_upstream_send (trace (forwardClientFrame mtype data w))
     \<noteq> filter is_upstream_send (trace w) \<Longrightarrow> isOpen w"
  by (auto simp: forwardClientFrame_def split: if_splits)

lemma unconfigured_upstream:
  "\<not> configReceived w \<Longrightarrow>
   filter is_upstream_send (trace (onClientMessage raw w)) = filter is_upstream_send (trace w)"
  by (auto simp: onClientMessage_def close_client_upstream connect_def connect_rejected_def Let_def
      split: option.split sum.split)

lemma first_frame_not_config:
  assumes "\<not> configReceived w" "message \<noteq> JNull" "message \<noteq> JUndefined"
    "opt_prop message ''type'' \<noteq> JStr ''config''"
  shows "onClientMessage (Some message) w = close_client 1011 first_message_error w"
proof -
  have "get_prop message k = Inr (opt_prop message k)" for k
    using assms(2,3) by (cases message) (simp_all add: opt_prop_def)
  then show ?thesis
    using assms(1,4) by (simp add: onClientMessage_def)
qed

text \<open>
  Claim C1, as the code has it. While no configuration has been received, a client
  frame that parses to a value other than \<^verbatim>\<open>null\<close> and whose \<^verbatim>\<open>type\<close> is not
  \<^verbatim>\<open>"config"\<close> makes the relay close the client socket with code 1011 and do nothing
  else; a frame that does not parse, or is \<^verbatim>\<open>null\<close>, changes nothing (it is only
  logged). No client frame makes the relay send anything upstream while no
  configuration has been received; and on every run of a session, a client frame makes
  the relay send upstream only when a configuration has been received, the upstream
  session is open, and the setup message of that configuration has been sent.
\<close>

theorem config_gate:
  "(\<not> configReceived w \<and> message \<noteq> JNull \<and> message \<noteq> JUndefined
      \<and> opt_prop message ''type'' \<noteq> JStr ''config'' \<longrightarrow>
      onClientMessage (Some message) w =
        w\<lparr>client_ready := (if client_ready w = OPEN then CLOSING else client_ready w),
          trace := trace w @ [ClientClose 1011 first_message_error]\<rparr>)
   \<and> onClientMessage None w = w
   \<and> onClientMessage (Some JNull) w = w
   \<and> (\<not> configReceived w \<longrightarrow>
        filter is_upstream_send (trace (onClientMessage raw w))
          = filter is_upstream_send (trace w))
   \<and> (filter is_upstream_send (trace (onClientMessage raw (run evs (new_session up cl))))
          \<noteq> filter is_upstream_send (trace (run evs (new_session up cl))) \<longrightarrow>
        configReceived (run evs (new_session up cl))
        \<and> isOpen (run evs (new_session up cl))
        \<and> (\<exists>cfg. config (run evs (new_session up cl)) = Some cfg
               \<and> UpstreamSend (setupMessage cfg) \<in> set (trace (run evs (new_session up cl)))))"
proof -
  let ?w = "run evs (new_session up cl)"
  have inv: "gate_inv ?w"
    by (rule gate_inv_run) (rule gate_inv_new)
  have reach: "configReceived ?w \<and> isOpen ?w
      \<and> (\<exists>cfg. config ?w = Some cfg \<and> UpstreamSend (setupMessage cfg) \<in> set (trace ?w))"
    if sends: "filter is_upstream_send (trace (onClientMessage raw ?w))
                 \<noteq> filter is_upstream_send (trace ?w)"
  proof -
    from sends have cr: "configReceived ?w"
      using unconfigured_upstream [of ?w raw] by blast
    have "onClientMessage raw ?w = ?w
          \<or> (\<exists>mtype data. onClientMessage raw ?w = forwardClientFrame mtype data ?w)"
      using cr by (auto simp: onClientMessage_def split: option.split sum.split)
    with sends have op: "isOpen ?w"
      using forward_upstream by auto
    with inv cr show ?thesis
      by (auto simp: gate_inv_def isOpen_def)
  qed
  show ?thesis
    using first_frame_not_config [of w message] unconfigured_upstream [of w raw] reach
    by (simp add: close_client_def) (simp add: onClientMessage_def)
qed

theorem config_gate_witness:
  "\<not> configReceived (new_session [] []) \<and> text_frame \<noteq> JNull \<and> text_frame \<noteq> JUndefined
   \<and> opt_prop text_frame ''type'' \<noteq> JStr ''config''
   \<and> onClientMessage (Some text_frame) (new_session [] []) =
       (new_session [] [])\<lparr>client_ready := CLOSING,
                            trace := [ClientClose 1011 first_message_error]\<rparr>
   \<and> filter is_upstream_send (trace (onClientMessage (Some text_frame) live_session))
       \<noteq> filter is_upstream_send (trace live_session)
   \<and> configReceived live_session
   \<and> isOpen live_session
   \<and> (\<exists>cfg. config live_session = Some cfg
          \<and> UpstreamSend (setupMessage cfg) \<in> set (trace live_session))"
proof -
  have sends: "filter is_upstream_send (trace (onClientMessage (Some text_frame) live_session))
       \<noteq> filter is_upstream_send (trace live_session)"
    by (simp add: live_session_eq onClientMessage_def text_frame_def forwardClientFrame_def
        isOpen_def sendText_def sendJson_def)
  have first: "\<not> configReceived (new_session [] []) \<and> text_frame \<noteq> JNull
      \<and> text_frame \<noteq> JUndefined \<and> opt_prop text_frame ''type'' \<noteq> JStr ''config''"
    by (simp add: new_session_def text_frame_def opt_prop_def)
  have start: "client_ready (new_session [] []) = OPEN \<and> trace (new_session [] []) = []"
    by (simp add: new_session_def)
  from config_gate [of "new_session [] []" text_frame "Some text_frame"
        "[ClientMessage (Some config_frame), UpstreamOpen, UpstreamMessage]" "[]" "[]"]
  have "onClientMessage (Some text_frame) (new_session [] []) =
       (new_session [] [])\<lparr>client_ready := CLOSING,
                            trace := [ClientClose 1011 first_message_error]\<rparr>"
    and "configReceived live_session \<and> isOpen live_session
      \<and> (\<exists>cfg. config live_session = Some cfg
          \<and> UpstreamSend (setupMessage cfg) \<in> set (trace live_session))"
    unfolding live_session_def [symmetric] using first sends start by simp_all
  with first sends show ?thesis by simp
qed

text \<open>
  Claim C1 as stated fails on two inputs. A first frame that cannot be parsed, or that
  is \<^verbatim>\<open>null\<close>, is not a configuration frame, and the relay makes no call on the client
  socket: the session is not closed. And after a configuration frame, once the
  upstream socket has opened, a text frame is forwarded upstream while the relay is
  still waiting in \<^verbatim>\<open>connect()\<close> for the answer to its setup message.
\<close>

theorem config_gate_counterexample:
  "trace (onClientMessage None (new_session [] [])) = []
   \<and> trace (onClientMessage (Some JNull) (new_session [] [])) = []
   \<and> connecting (run [ClientMessage (Some config_frame), UpstreamOpen] (new_session [] []))
   \<and> trace (run [ClientMessage (Some config_frame), UpstreamOpen, ClientMessage (Some text_frame)]
              (new_session [] [])) =
       [UpstreamSend
          (JObj [(''setup'',
                  JObj [(''model'', JStr ''models/gemini-2.0-flash-exp''),
                        (''generation_config'',
                         JObj [(''response_modalities'', JArr [JStr ''TEXT''])]),
                        (''system_instruction'',
                         JObj [(''parts'', JArr [JObj [(''text'', JStr ''x'')]])]),
                        (''tools'', JArr [])])]),
        UpstreamSend
          (JObj [(''client_content'',
                  JObj [(''turns'',
                         JArr [JObj [(''role'', JStr ''user''),
                                     (''parts'', JArr [JObj [(''text'', JStr ''hola'')]])]]),
                        (''turn_complete'', JBool True)])])]"
  by (simp add: new_session_def onClientMessage_def config_frame_def text_frame_def connect_def
      onUpstreamOpen_def forwardClientFrame_def isOpen_def sendText_def sendJson_def
      setupMessage_def opt_prop_def or_else_def user_turn_def)


section \<open>Properties of the playback buffer\<close>

lemma playing_streamer_eq:
  "playing_streamer =
     \<lparr>sampleRate = 24000, audioQueue = [\<lparr>samples = [0, - 1], rate = 24000\<rparr>],
      isPlaying = True, currentSource = Some 1, gain = 1,
      gainConnected = True, playbackTimeout = Some 3, lastPlaybackTime = 2,
      isDisposed = False, onComplete = Hook 1, onInterruption = Hook 2,
      suspended = True, supportsRate = (\<lambda>r. 8000 \<le> r \<and> r \<le> 96000),
      timers = [(3, StallCheck, 1000)], fresh = 4,
      effects =
        [ContextResume,
         SourceStart 1 \<lparr>samples = [1 / 2, - (1 / 2)], rate = 24000\<rparr> 1,
         ContextResume]\<rparr>"
  by (simp add: playing_streamer_def hosted_streamer_def new_streamer_def addPCM16_def
      playNextBuffer_def checkPlaybackStatus_def setTimeout_def clearTimeout_def toFloat32_def
      level_def Let_def)

lemma invoke_fields:
  "isDisposed (invoke cb s) = isDisposed s" "isPlaying (invoke cb s) = isPlaying s"
  "audioQueue (invoke cb s) = audioQueue s" "currentSource (invoke cb s) = currentSource s"
  "playbackTimeout (invoke cb s) = playbackTimeout s" "gain (invoke cb s) = gain s"
  "onInterruption (invoke cb s) = onInterruption s" "onComplete (invoke cb s) = onComplete s"
  "timers (invoke cb s) = timers s" "fresh (invoke cb s) = fresh s"
  "lastPlaybackTime (invoke cb s) = lastPlaybackTime s"
  "gainConnected (invoke cb s) = gainConnected s" "suspended (invoke cb s) = suspended s"
  "sampleRate (invoke cb s) = sampleRate s" "supportsRate (invoke cb s) = supportsRate s"
  by (simp_all add: invoke_def split: callback.split)

lemma stop_fields:
  "isPlaying (stop s) = False" "gain (stop s) = 0" "audioQueue (stop s) = []"
  "currentSource (stop s) = None" "playbackTimeout (stop s) = None"
  "isDisposed (stop s) = isDisposed s" "fresh (stop s) = fresh s"
  "suspended (stop s) = suspended s" "gainConnected (stop s) = gainConnected s"
  "sampleRate (stop s) = sampleRate s" "supportsRate (stop s) = supportsRate s"
  "timers (stop s) = (case playbackTimeout s of
                        None \<Rightarrow> timers s
                      | Some h \<Rightarrow> filter (\<lambda>t. fst t \<noteq> h) (timers s))"
  by (simp_all add: stop_def Let_def invoke_fields clearTimeout_def split: option.split)

lemma stop_inert: "inert s \<Longrightarrow> stop s = s"
  by (cases s) (simp add: inert_def stop_def invoke_def)

lemma inert_dispose: "\<not> isDisposed s \<Longrightarrow> inert (dispose s)"
  by (simp add: inert_def dispose_def stop_def Let_def invoke_fields clearTimeout_def
      split: option.split)

lemma inert_call: "inert s \<Longrightarrow> call c s = s"
proof (cases c)
  case (AddPCM16 chunk now)
  assume "inert s"
  then show ?thesis
    using AddPCM16 by (simp add: inert_def addPCM16_def split: option.split)
next
  case StopPlayback
  assume "inert s"
  then show ?thesis using StopPlayback by (simp add: stop_inert)
next
  case Resume
  assume "inert s"
  then show ?thesis using Resume by (simp add: inert_def resume_def)
next
  case Dispose
  assume "inert s"
  then show ?thesis using Dispose by (simp add: inert_def dispose_def)
qed

lemma inert_calls: "inert s \<Longrightarrow> calls cs s = s"
  by (induction cs) (simp_all add: inert_call)

text \<open>
  Claim C8. After \<^verbatim>\<open>dispose()\<close> on a streamer that was not yet disposed, any sequence
  of calls of \<^verbatim>\<open>addPCM16\<close>, \<^verbatim>\<open>stop\<close>, \<^verbatim>\<open>resume\<close> and \<^verbatim>\<open>dispose\<close> leaves the streamer
  exactly as \<^verbatim>\<open>dispose()\<close> left it: every field, the pending timeouts, and the
  recorded effects (no source is started, no callback of the hosting code is invoked,
  no timeout is scheduled).
\<close>

theorem disposed_is_inert:
  "\<not> isDisposed s \<Longrightarrow> calls cs (dispose s) = dispose s"
  by (simp add: inert_calls inert_dispose)

theorem disposed_is_inert_witness:
  "\<not> isDisposed playing_streamer
   \<and> calls [AddPCM16 (Some [1, 2]) 5, StopPlayback, Resume, Dispose] (dispose playing_streamer)
       = dispose playing_streamer"
  using disposed_is_inert [of playing_streamer
      "[AddPCM16 (Some [1, 2]) 5, StopPlayback, Resume, Dispose]"]
  by (simp add: playing_streamer_eq)

lemma checkPlaybackStatus_live:
  "\<not> isDisposed s \<Longrightarrow>
   checkPlaybackStatus s =
     s\<lparr>timers := (case playbackTimeout s of
                       None \<Rightarrow> timers s
                     | Some old \<Rightarrow> filter (\<lambda>t. fst t \<noteq> old) (timers s))
                    @ [(fresh s, StallCheck, 1000)],
       fresh := Suc (fresh s), playbackTimeout := Some (fresh s)\<rparr>"
  by (cases s) (simp add: checkPlaybackStatus_def setTimeout_def clearTimeout_def Let_def
      split: option.split)

lemma playNextBuffer_advance:
  "\<not> isDisposed s \<Longrightarrow> audioQueue s \<noteq> [] \<Longrightarrow>
   playNextBuffer now s =
     s\<lparr>lastPlaybackTime := now, audioQueue := tl (audioQueue s), fresh := Suc (fresh s),
       currentSource := Some (fresh s),
       effects := effects s
                  @ (case currentSource s of None \<Rightarrow> [] | Some old \<Rightarrow> [SourceDisconnect old])
                  @ [SourceStart (fresh s) (hd (audioQueue s)) (level s)]\<rparr>"
  by (cases s) (simp add: playNextBuffer_def Let_def level_def split: option.split)

lemma playNextBuffer_done:
  "isDisposed s \<or> audioQueue s = [] \<Longrightarrow>
   playNextBuffer now s = invoke (onComplete s) (s\<lparr>isPlaying := False\<rparr>)"
  by (simp add: playNextBuffer_def)

text \<open>
  Claim C7. The stall-detection tick, scheduled with a delay of 1000 ms. The gap is
  the difference \<^verbatim>\<open>now - this.lastPlaybackTime\<close> as the program computes it, in double
  arithmetic (\<open>fsub\<close>, whatever it is). If the streamer is not disposed, the gap
  exceeds 1 second, the queue is not empty and the playing flag is set, the tick
  advances to the next segment: the head of the queue is dequeued and started as the
  current source, and the playback start is set to now. If that condition does not hold it
  advances nothing. The tick schedules the next tick, again after 1000 ms, exactly
  when the streamer is playing and not disposed, and it is then still playing;
  otherwise no timeout is scheduled.
\<close>

theorem stall_tick:
  "(\<not> isDisposed s \<and> fsub now (lastPlaybackTime s) > 1 \<and> audioQueue s \<noteq> [] \<and> isPlaying s \<longrightarrow>
      audioQueue (stallTick fsub now s) = tl (audioQueue s)
      \<and> currentSource (stallTick fsub now s) = Some (fresh s)
      \<and> lastPlaybackTime (stallTick fsub now s) = now
      \<and> effects (stallTick fsub now s) =
          effects s
          @ (case currentSource s of None \<Rightarrow> [] | Some old \<Rightarrow> [SourceDisconnect old])
          @ [SourceStart (fresh s) (hd (audioQueue s)) (level s)])
   \<and> (\<not> (fsub now (lastPlaybackTime s) > 1 \<and> audioQueue s \<noteq> [] \<and> isPlaying s) \<longrightarrow>
        audioQueue (stallTick fsub now s) = audioQueue s
        \<and> currentSource (stallTick fsub now s) = currentSource s
        \<and> lastPlaybackTime (stallTick fsub now s) = lastPlaybackTime s
        \<and> effects (stallTick fsub now s) = effects s)
   \<and> (isPlaying s \<and> \<not> isDisposed s \<longrightarrow>
        isPlaying (stallTick fsub now s)
        \<and> (\<exists>h. playbackTimeout (stallTick fsub now s) = Some h
               \<and> timers (stallTick fsub now s) =
                   (case playbackTimeout s of
                      None \<Rightarrow> timers s
                    | Some old \<Rightarrow> filter (\<lambda>t. fst t \<noteq> old) (timers s))
                   @ [(h, StallCheck, 1000)]))
   \<and> (\<not> (isPlaying s \<and> \<not> isDisposed s) \<longrightarrow>
        timers (stallTick fsub now s) = timers s
        \<and> playbackTimeout (stallTick fsub now s) = playbackTimeout s)"
proof -
  let ?stall = "fsub now (lastPlaybackTime s) > 1 \<and> audioQueue s \<noteq> [] \<and> isPlaying s"
  have advance: "stallTick fsub now s = checkPlaybackStatus (playNextBuffer now s)"
    and advanced: "\<not> isDisposed (playNextBuffer now s)"
    if "\<not> isDisposed s" ?stall
    using that by (simp_all add: stallTick_def stalled_def playNextBuffer_advance)
  have a: ?thesis if live: "\<not> isDisposed s" and st: ?stall
  proof -
    have "stallTick fsub now s = checkPlaybackStatus (playNextBuffer now s)"
      using advance live st by simp
    then show ?thesis
      using live st advanced
      by (simp add: checkPlaybackStatus_live) (simp add: playNextBuffer_advance split: option.split)
  qed
  have b: ?thesis if live: "\<not> isDisposed s" and st: "\<not> ?stall"
  proof (cases "isPlaying s")
    case True
    then have "stallTick fsub now s = checkPlaybackStatus s"
      using live st by (auto simp: stallTick_def stalled_def)
    then show ?thesis
      using live st True by (simp add: checkPlaybackStatus_live)
  next
    case False
    then have "stallTick fsub now s = s"
      using st by (auto simp: stallTick_def stalled_def)
    then show ?thesis
      using st False by simp
  qed
  have c: ?thesis if dead: "isDisposed s"
  proof (cases ?stall)
    case True
    then have "stallTick fsub now s = invoke (onComplete s) (s\<lparr>isPlaying := False\<rparr>)"
      using dead by (simp add: stallTick_def stalled_def playNextBuffer_done invoke_fields)
    then show ?thesis
      using dead True by (simp add: invoke_fields)
  next
    case False
    then have "stallTick fsub now s = s"
      using dead by (auto simp: stallTick_def stalled_def)
    then show ?thesis
      using dead False by simp
  qed
  from a b c show ?thesis by blast
qed

text \<open>
  At the times of the example (2, 5/2 and 4 seconds) the subtraction of doubles is
  exact, and is the subtraction of reals.
\<close>

theorem stall_tick_witness:
  "\<not> isDisposed playing_streamer \<and> 4 - lastPlaybackTime playing_streamer > 1
   \<and> audioQueue playing_streamer \<noteq> [] \<and> isPlaying playing_streamer
   \<and> audioQueue (stallTick (-) 4 playing_streamer) = []
   \<and> currentSource (stallTick (-) 4 playing_streamer) = Some 4
   \<and> lastPlaybackTime (stallTick (-) 4 playing_streamer) = 4
   \<and> effects (stallTick (-) 4 playing_streamer) =
       effects playing_streamer
       @ [SourceDisconnect 1, SourceStart 4 \<lparr>samples = [0, - 1], rate = 24000\<rparr> 1]
   \<and> isPlaying (stallTick (-) 4 playing_streamer)
   \<and> (\<exists>h. playbackTimeout (stallTick (-) 4 playing_streamer) = Some h
          \<and> timers (stallTick (-) 4 playing_streamer) = [(h, StallCheck, 1000)])
   \<and> \<not> (5 / 2 - lastPlaybackTime playing_streamer > 1)
   \<and> audioQueue (stallTick (-) (5 / 2) playing_streamer) = audioQueue playing_streamer
   \<and> effects (stallTick (-) (5 / 2) playing_streamer) = effects playing_streamer
   \<and> \<not> isPlaying (stop playing_streamer)
   \<and> timers (stallTick (-) 4 (stop playing_streamer)) = timers (stop playing_streamer)"
proof -
  have stopped: "\<not> isPlaying (stop playing_streamer)"
    by (simp add: stop_fields)
  show ?thesis
    using stall_tick [where s = playing_streamer and fsub = "(-)" and now = 4]
      stall_tick [where s = playing_streamer and fsub = "(-)" and now = "5 / 2"]
      stall_tick [where s = "stop playing_streamer" and fsub = "(-)" and now = 4] stopped
    by (simp add: playing_streamer_eq level_def)
qed

lemma checkPlaybackStatus_fields:
  "gain (checkPlaybackStatus s) = gain s" "effects (checkPlaybackStatus s) = effects s"
  "audioQueue (checkPlaybackStatus s) = audioQueue s"
  by (simp_all add: checkPlaybackStatus_def setTimeout_def clearTimeout_def Let_def
      split: option.split)

lemma addPCM16_throws:
  "\<not> isDisposed s \<Longrightarrow> c = [] \<or> \<not> supportsRate s (sampleRate s) \<Longrightarrow>
   addPCM16 (Some c) now s =
     (Inl NotSupportedError,
      s\<lparr>effects := effects s @ (if suspended s then [ContextResume] else []), gain := 1\<rparr>)"
  by (cases s) (auto simp: addPCM16_def)

lemma addPCM16_queued:
  "\<not> isDisposed s \<Longrightarrow> c \<noteq> [] \<Longrightarrow> supportsRate s (sampleRate s) \<Longrightarrow> isPlaying s \<Longrightarrow>
   addPCM16 (Some c) now s =
     (Inr (),
      checkPlaybackStatus
        (s\<lparr>effects := effects s @ (if suspended s then [ContextResume] else []), gain := 1,
           audioQueue := audioQueue s @ [\<lparr>samples = toFloat32 c, rate = sampleRate s\<rparr>]\<rparr>))"
  by (cases s) (simp add: addPCM16_def Let_def)

lemma addPCM16_started:
  "\<not> isDisposed s \<Longrightarrow> c \<noteq> [] \<Longrightarrow> supportsRate s (sampleRate s) \<Longrightarrow> \<not> isPlaying s \<Longrightarrow>
   addPCM16 (Some c) now s =
     (Inr (),
      checkPlaybackStatus
        (playNextBuffer now
           (s\<lparr>effects := effects s @ (if suspended s then [ContextResume] else []), gain := 1,
              audioQueue := audioQueue s @ [\<lparr>samples = toFloat32 c, rate = sampleRate s\<rparr>],
              isPlaying := True, lastPlaybackTime := now\<rparr>)))"
  by (cases s) (simp add: addPCM16_def Let_def)

text \<open>
  Claim C10. On a streamer that is not disposed, \<^verbatim>\<open>addPCM16\<close> with a chunk leaves the
  gain at 1, and on a suspended context its first effect is to resume the context. The
  gain is set before the segment is enqueued: where \<^verbatim>\<open>createBuffer\<close> throws (an empty
  chunk, a sample rate the context does not support) the gain is 1 and the queue is
  untouched. Otherwise a chunk added while playing is appended to the queue.
  \<^verbatim>\<open>stop()\<close> leaves the gain at 0; a chunk added after it, with no call of
  \<^verbatim>\<open>resume()\<close>, sets the gain to 1 and only then starts the segment, which reaches the
  destination at level 1.
\<close>

theorem addPCM16_resets_gain:
  assumes live: "\<not> isDisposed s"
  shows "gain (snd (addPCM16 (Some c) now s)) = 1
     \<and> (suspended s \<longrightarrow>
          (\<exists>rest. effects (snd (addPCM16 (Some c) now s)) = effects s @ ContextResume # rest))
     \<and> (c = [] \<or> \<not> supportsRate s (sampleRate s) \<longrightarrow>
          fst (addPCM16 (Some c) now s) = Inl NotSupportedError
          \<and> audioQueue (snd (addPCM16 (Some c) now s)) = audioQueue s)
     \<and> (c \<noteq> [] \<and> supportsRate s (sampleRate s) \<and> isPlaying s \<longrightarrow>
          audioQueue (snd (addPCM16 (Some c) now s)) =
            audioQueue s
            @ [\<lparr>samples = map (\<lambda>x. real_of_int (sint x) / 32768) c, rate = sampleRate s\<rparr>])
     \<and> gain (stop s) = 0
     \<and> gain (snd (addPCM16 (Some c) now (stop s))) = 1
     \<and> (c \<noteq> [] \<and> supportsRate s (sampleRate s) \<and> gainConnected s \<longrightarrow>
          effects (snd (addPCM16 (Some c) now (stop s))) =
              effects (stop s)
              @ (if suspended s then [ContextResume] else [])
              @ [SourceStart (fresh s)
                   \<lparr>samples = map (\<lambda>x. real_of_int (sint x) / 32768) c, rate = sampleRate s\<rparr>
                   1])"
proof -
  let ?buf = "\<lparr>samples = toFloat32 c, rate = sampleRate s\<rparr>"
  let ?resume = "if suspended s then [ContextResume] else []"
  have any: "gain (snd (addPCM16 (Some c) now t)) = 1
      \<and> (suspended t \<longrightarrow>
           (\<exists>rest. effects (snd (addPCM16 (Some c) now t)) = effects t @ ContextResume # rest))"
    if t: "\<not> isDisposed t" for t
  proof (cases "c = [] \<or> \<not> supportsRate t (sampleRate t)")
    case True
    with t show ?thesis by (simp add: addPCM16_throws)
  next
    case False
    show ?thesis
    proof (cases "isPlaying t")
      case True
      with t False show ?thesis
        by (simp add: addPCM16_queued checkPlaybackStatus_fields)
    next
      case stopped: False
      with t False show ?thesis
        by (simp add: addPCM16_started checkPlaybackStatus_fields playNextBuffer_advance)
    qed
  qed
  have thrown: "fst (addPCM16 (Some c) now s) = Inl NotSupportedError
      \<and> audioQueue (snd (addPCM16 (Some c) now s)) = audioQueue s"
    if "c = [] \<or> \<not> supportsRate s (sampleRate s)"
    using live that by (simp add: addPCM16_throws)
  have queued: "audioQueue (snd (addPCM16 (Some c) now s)) = audioQueue s @ [?buf]"
    if "c \<noteq> []" "supportsRate s (sampleRate s)" "isPlaying s"
    using live that by (simp add: addPCM16_queued checkPlaybackStatus_fields)
  have after_stop: "effects (snd (addPCM16 (Some c) now (stop s))) =
      effects (stop s) @ ?resume @ [SourceStart (fresh s) ?buf 1]"
    if "c \<noteq> []" "supportsRate s (sampleRate s)" "gainConnected s"
    using live that
    by (simp add: addPCM16_started stop_fields checkPlaybackStatus_fields playNextBuffer_advance
        level_def)
  have stop_live: "\<not> isDisposed (stop s)"
    using live by (simp add: stop_fields)
  show ?thesis
    using any [OF live] any [OF stop_live] thrown queued after_stop
    by (simp add: stop_fields toFloat32_def)
qed

theorem addPCM16_resets_gain_witness:
  "\<not> isDisposed playing_streamer \<and> suspended playing_streamer
   \<and> gainConnected playing_streamer \<and> isPlaying playing_streamer
   \<and> supportsRate playing_streamer (sampleRate playing_streamer)
   \<and> gain (snd (addPCM16 (Some [16384]) 7 playing_streamer)) = 1
   \<and> audioQueue (snd (addPCM16 (Some [16384]) 7 playing_streamer)) =
       [\<lparr>samples = [0, - 1], rate = 24000\<rparr>, \<lparr>samples = [1 / 2], rate = 24000\<rparr>]
   \<and> fst (addPCM16 (Some []) 7 playing_streamer) = Inl NotSupportedError
   \<and> gain (snd (addPCM16 (Some []) 7 playing_streamer)) = 1
   \<and> audioQueue (snd (addPCM16 (Some []) 7 playing_streamer)) = audioQueue playing_streamer
   \<and> gain (stop playing_streamer) = 0
   \<and> gain (snd (addPCM16 (Some [16384]) 7 (stop playing_streamer))) = 1
   \<and> effects (snd (addPCM16 (Some [16384]) 7 (stop playing_streamer))) =
       effects (stop playing_streamer)
       @ [ContextResume, SourceStart 4 \<lparr>samples = [1 / 2], rate = 24000\<rparr> 1]"
  using addPCM16_resets_gain [of playing_streamer "[16384]" 7]
    addPCM16_resets_gain [of playing_streamer "[]" 7]
  by (simp add: playing_streamer_eq)

end
